theory Spec2Isabelle
  imports Main "HOL-Library.Char_ord" "HOL-Library.List_Lexorder" "HOL-Library.Multiset"
begin

section \<open>Characters and the string primitives of the source\<close>

text \<open>
  The source is Python 3: a \<open>str\<close> is a sequence of code points. The model uses
  \<^typ>\<open>string\<close> and gives the character classes their ASCII meaning: the letters are
  \<open>A-Z\<close> and \<open>a-z\<close>, the digits are \<open>0-9\<close>, and the white space characters are the ones
  Python's \<open>str.isspace\<close>, \<open>str.split()\<close>, \<open>str.strip()\<close> and the pattern \<open>\s\<close> accept below
  code point 128. A character outside ASCII is treated as caseless, non-alphabetic and
  non-blank.
\<close>

definition is_upper :: "char \<Rightarrow> bool" where
  "is_upper c = (c \<in> set ''ABCDEFGHIJKLMNOPQRSTUVWXYZ'')"

definition is_lower :: "char \<Rightarrow> bool" where
  "is_lower c = (c \<in> set ''abcdefghijklmnopqrstuvwxyz'')"

definition is_alpha :: "char \<Rightarrow> bool" where
  "is_alpha c = (is_upper c \<or> is_lower c)"

definition is_digit :: "char \<Rightarrow> bool" where
  "is_digit c = (c \<in> set ''0123456789'')"

definition is_space :: "char \<Rightarrow> bool" where
  "is_space c = (c \<in> {CHR '' '', CHR 0x09, CHR 0x0A, CHR 0x0B, CHR 0x0C, CHR 0x0D,
                        CHR 0x1C, CHR 0x1D, CHR 0x1E, CHR 0x1F})"

text \<open>\<open>\w\<close> of the \<open>re\<close> module, which decides the word boundary \<open>\b\<close>.\<close>

definition is_word :: "char \<Rightarrow> bool" where
  "is_word c = (is_alpha c \<or> is_digit c \<or> c = CHR ''_'')"

text \<open>\<open>s.isupper()\<close>: at least one cased character, and no lowercase one.\<close>

definition str_isupper :: "string \<Rightarrow> bool" where
  "str_isupper s = ((\<exists>c \<in> set s. is_upper c) \<and> (\<forall>c \<in> set s. \<not> is_lower c))"

text \<open>\<open>s.isalpha()\<close>: non-empty, every character alphabetic.\<close>

definition str_isalpha :: "string \<Rightarrow> bool" where
  "str_isalpha s = (s \<noteq> [] \<and> (\<forall>c \<in> set s. is_alpha c))"

text \<open>\<open>s.lower()\<close>.\<close>

definition lower_char :: "char \<Rightarrow> char" where
  "lower_char c =
     (case map_of (zip ''ABCDEFGHIJKLMNOPQRSTUVWXYZ'' ''abcdefghijklmnopqrstuvwxyz'') c of
        None \<Rightarrow> c
      | Some l \<Rightarrow> l)"

definition lower :: "string \<Rightarrow> string" where
  "lower s = map lower_char s"

text \<open>\<open>s.split()\<close>: the maximal runs of non-blank characters, none of them empty.\<close>

fun split_ws_from :: "string \<Rightarrow> string \<Rightarrow> string list" where
  "split_ws_from cur [] = (if cur = [] then [] else [cur])"
| "split_ws_from cur (c # cs) =
     (if is_space c then (if cur = [] then split_ws_from [] cs else cur # split_ws_from [] cs)
      else split_ws_from (cur @ [c]) cs)"

definition split_ws :: "string \<Rightarrow> string list" where
  "split_ws s = split_ws_from [] s"

text \<open>\<open>s.split(d)\<close> for a one-character separator \<open>d\<close>: every occurrence of the separator
  cuts, so adjacent, leading and trailing separators give empty pieces, and the empty
  string gives one empty piece.\<close>

fun split_on_from :: "char \<Rightarrow> string \<Rightarrow> string \<Rightarrow> string list" where
  "split_on_from d cur [] = [cur]"
| "split_on_from d cur (c # cs) =
     (if c = d then cur # split_on_from d [] cs else split_on_from d (cur @ [c]) cs)"

definition split_on :: "char \<Rightarrow> string \<Rightarrow> string list" where
  "split_on d s = split_on_from d [] s"

text \<open>\<open>sep.join(parts)\<close>.\<close>

fun join :: "string \<Rightarrow> string list \<Rightarrow> string" where
  "join sep [] = []"
| "join sep [p] = p"
| "join sep (p # q # ps) = p @ sep @ join sep (q # ps)"

text \<open>\<open>s.strip()\<close> and \<open>s.rstrip()\<close>.\<close>

definition rstrip :: "string \<Rightarrow> string" where
  "rstrip s = rev (dropWhile is_space (rev s))"

definition strip :: "string \<Rightarrow> string" where
  "strip s = rstrip (dropWhile is_space s)"

section \<open>The given-name formatter: \<open>process_given_name\<close>\<close>

text \<open>\<open>'. '.join(list(part)) + '.'\<close>\<close>

definition initials :: "string \<Rightarrow> string" where
  "initials part = join ''. '' (map (\<lambda>c. [c]) part) @ ''.''"

text \<open>
  The \<open>for part in parts\<close> loop, with its two variables \<open>processed_parts\<close> and
  \<open>comma_inserted\<close> passed along. \<open>processed_parts[-1] + ','\<close> is only evaluated when
  \<open>processed_parts\<close> is not empty.
\<close>

fun given_loop :: "string list \<Rightarrow> string list \<Rightarrow> bool \<Rightarrow> string list" where
  "given_loop [] processed_parts comma_inserted = processed_parts"
| "given_loop (part # parts) processed_parts comma_inserted =
     (if part = [] then given_loop parts processed_parts comma_inserted
      else if is_lower (hd part) then
        given_loop parts (processed_parts @ [part]) comma_inserted
      else if str_isupper part \<and> str_isalpha part then
        (if \<not> comma_inserted \<and> processed_parts \<noteq> [] then
           given_loop parts
             (butlast processed_parts @ [last processed_parts @ '',''] @ [initials part]) True
         else given_loop parts (processed_parts @ [initials part]) comma_inserted)
      else given_loop parts (processed_parts @ [part]) comma_inserted)"

definition process_given_name :: "string \<Rightarrow> string" where
  "process_given_name given_name =
     (if given_name = [] then [] else join '' '' (given_loop (split_ws given_name) [] False))"

section \<open>The name parser inside \<open>fetch_paper_data_csl\<close>\<close>

text \<open>
  An author entry of the CSL-JSON record: the source builds a dictionary with the keys
  \<open>family\<close> and \<open>given\<close>, and \<open>non-dropping-particle\<close> on some paths only.
\<close>

record person =
  family :: string
  given :: string
  non_dropping_particle :: "string option"

text \<open>
  A raised Python exception, with its class name and the text \<open>str(e)\<close> gives. A function
  of the model that can raise returns \<open>Inl\<close> of the exception.
\<close>

datatype py_exception = PyException (exc_class: string) (exc_text: string)

definition IndexError_string :: py_exception where
  "IndexError_string = PyException ''IndexError'' ''string index out of range''"

text \<open>\<open>s[0]\<close> on a string.\<close>

definition first_char :: "string \<Rightarrow> py_exception + char" where
  "first_char s = (case s of [] \<Rightarrow> Inl IndexError_string | c # _ \<Rightarrow> Inr c)"

subsection \<open>The pubmed branch\<close>

text \<open>
  \<open>for i, part in enumerate(parts): if part and part[0].isupper(): ... break\<close>, then the
  loop's \<open>else\<close> clause. The scan gives the index at which the loop breaks, or \<open>None\<close> when
  it runs to its end, which is when the \<open>else\<close> clause (the fallback) is executed.
\<close>

fun upper_scan :: "nat \<Rightarrow> string list \<Rightarrow> nat option" where
  "upper_scan i [] = None"
| "upper_scan i (part # parts) =
     (if part \<noteq> [] \<and> is_upper (hd part) then Some i else upper_scan (Suc i) parts)"

text \<open>\<open>' '.join(parts[i + 1:]) if len(parts) > i + 1 else ""\<close>\<close>

definition given_after :: "string list \<Rightarrow> nat \<Rightarrow> string" where
  "given_after parts i = (if length parts > i + 1 then join '' '' (drop (i + 1) parts) else [])"

text \<open>
  One round of \<open>for author_name in article.authors\<close>: the entry appended to
  \<open>authors_list\<close>, or \<open>None\<close> when the round appends nothing. No step of this branch can
  raise: \<open>part[0]\<close> is guarded by \<open>part and\<close>, \<open>parts[0]\<close> is read from a list of at least two
  elements.
\<close>

definition pubmed_author :: "string \<Rightarrow> person option" where
  "pubmed_author author_name =
     (if author_name = [] then None
      else
        let parts = split_on CHR '' '' author_name in
        if length parts \<ge> 2 then
          (case upper_scan 0 parts of
             Some i \<Rightarrow>
               if i > 0 then
                 Some \<lparr>family = parts ! i,
                       given = process_given_name (given_after parts i),
                       non_dropping_particle = Some (join '' '' (take i parts))\<rparr>
               else
                 Some \<lparr>family = parts ! i,
                       given = process_given_name (given_after parts i),
                       non_dropping_particle = None\<rparr>
           | None \<Rightarrow>
               Some \<lparr>family = parts ! 0,
                     given = process_given_name (given_after parts 0),
                     non_dropping_particle = None\<rparr>)
        else if length parts = 1 then
          Some \<lparr>family = parts ! 0, given = [], non_dropping_particle = None\<rparr>
        else None)"

definition pubmed_authors :: "string list \<Rightarrow> person list" where
  "pubmed_authors authors = List.map_filter pubmed_author authors"

text \<open>The fallback of the pubmed branch is executed for \<open>author_name\<close>.\<close>

definition pubmed_fallback_executed :: "string \<Rightarrow> bool" where
  "pubmed_fallback_executed author_name =
     (author_name \<noteq> [] \<and> length (split_on CHR '' '' author_name) \<ge> 2
      \<and> upper_scan 0 (split_on CHR '' '' author_name) = None)"

subsection \<open>The arxiv and biorxiv branches\<close>

text \<open>
  \<open>while family_idx > 0 and parts[family_idx - 1][0].islower(): family_idx -= 1\<close>.
  The index starts at \<open>len(parts) - 1\<close>, so \<open>parts[family_idx - 1]\<close> is always in range;
  \<open>[0]\<close> on an empty token raises.
\<close>

fun family_scan :: "string list \<Rightarrow> nat \<Rightarrow> py_exception + nat" where
  "family_scan parts 0 = Inr 0"
| "family_scan parts (Suc j) =
     (case first_char (parts ! j) of
        Inl e \<Rightarrow> Inl e
      | Inr c \<Rightarrow> if is_lower c then family_scan parts j else Inr (Suc j))"

text \<open>
  The body both branches run on the tokens of one name (the two copies in the source
  differ in local variable initialisations only): the entry appended, \<open>None\<close> when nothing
  is appended, or the exception raised.
\<close>

definition particle_author :: "string list \<Rightarrow> py_exception + person option" where
  "particle_author parts =
     (if length parts \<ge> 2 then
        (case family_scan parts (length parts - 1) of
           Inl e \<Rightarrow> Inl e
         | Inr family_idx \<Rightarrow>
             let family_parts = drop family_idx parts;
                 given_parts = take family_idx parts;
                 processed_given = process_given_name (join '' '' given_parts)
             in
             if length family_parts > 1 then
               (case first_char (family_parts ! 0) of
                  Inl e \<Rightarrow> Inl e
                | Inr c \<Rightarrow>
                    if is_lower c then
                      Inr (Some \<lparr>family = last family_parts, given = processed_given,
                                  non_dropping_particle =
                                    Some (join '' '' (butlast family_parts))\<rparr>)
                    else
                      Inr (Some \<lparr>family = join '' '' family_parts, given = processed_given,
                                  non_dropping_particle = None\<rparr>))
             else
               Inr (Some \<lparr>family = join '' '' family_parts, given = processed_given,
                           non_dropping_particle = None\<rparr>))
      else if length parts = 1 then
        Inr (Some \<lparr>family = parts ! 0, given = [], non_dropping_particle = None\<rparr>)
      else Inr None)"

definition arxiv_author :: "string \<Rightarrow> py_exception + person option" where
  "arxiv_author name = particle_author (split_on CHR '' '' name)"

definition biorxiv_author :: "string \<Rightarrow> py_exception + person option" where
  "biorxiv_author auth = particle_author (split_on CHR '' '' (strip auth))"

text \<open>The author loop of these branches: the first exception ends it.\<close>

fun collect_authors ::
  "(string \<Rightarrow> py_exception + person option) \<Rightarrow> string list \<Rightarrow> py_exception + person list" where
  "collect_authors f [] = Inr []"
| "collect_authors f (name # names) =
     (case f name of
        Inl e \<Rightarrow> Inl e
      | Inr entry \<Rightarrow>
          (case collect_authors f names of
             Inl e \<Rightarrow> Inl e
           | Inr authors_list \<Rightarrow>
               Inr ((case entry of None \<Rightarrow> [] | Some a \<Rightarrow> [a]) @ authors_list)))"

definition arxiv_authors :: "string list \<Rightarrow> py_exception + person list" where
  "arxiv_authors names = collect_authors arxiv_author names"

text \<open>\<open>for auth in item['authors'].split(';')\<close>\<close>

definition biorxiv_authors :: "string \<Rightarrow> py_exception + person list" where
  "biorxiv_authors authors = collect_authors biorxiv_author (split_on CHR '';'' authors)"

section \<open>The record builder: \<open>fetch_paper_data_csl\<close>\<close>

text \<open>
  The metadata clients are outside the repository. Each is modelled by what it hands to
  \<open>fetch_paper_data_csl\<close>: the object whose attributes the source reads, or the exception
  the call raises. Where the source converts a field with \<open>int\<close>, the field of the model is
  the outcome of that conversion (the number, or the exception raised).
\<close>

record pubmed_article =
  pm_authors :: "string list"
  pm_title :: "string option"
  pm_journal :: "string option"
  pm_volume :: "string option"
  pm_issue :: "string option"
  pm_pages :: "string option"
  pm_year :: "py_exception + int"

record arxiv_paper =
  ax_authors :: "string list"
  ax_title :: "string option"
  ax_published :: "int \<times> int \<times> int"
  ax_entry_id :: "string option"

record biorxiv_item =
  bx_authors :: string
  bx_title :: "string option"
  bx_doi :: "string option"
  bx_year :: "py_exception + int"

text \<open>
  The decoded bioRxiv answer: the \<open>status\<close> of each element of \<open>messages\<close> (empty when the
  key is missing or the list is empty: \<open>resp.get('messages')\<close> is falsy in both cases) and
  the \<open>collection\<close> list.
\<close>

record biorxiv_response =
  bx_messages :: "string list"
  bx_collection :: "biorxiv_item list"

record csl_record =
  csl_id :: string
  csl_type :: string
  csl_title :: "string option"
  csl_container_title :: "string option"
  csl_volume :: "string option"
  csl_issue :: "string option"
  csl_page :: "string option"
  csl_author :: "person list"
  csl_issued :: "int list"
  csl_URL :: "string option"

datatype source = pubmed | arxiv | biorxiv

text \<open>
  The world outside the repository: the three metadata clients, the style file cache
  (\<open>get_csl_path\<close>, which catches its own exceptions and returns a path or \<open>None\<close>), the
  citeproc renderer (lines 343 to 366 of \<open>process_csl\<close>: the string \<open>result_html\<close>, or the
  exception raised on the way), and the debug trace: \<open>write_trace path\<close> is the outcome of
  opening \<open>path\<close> for writing and writing to it, \<open>None\<close> when it succeeds.
\<close>

record world =
  article_by_pmid :: "string \<Rightarrow> py_exception + pubmed_article"
  arxiv_result :: "string \<Rightarrow> py_exception + arxiv_paper"
  biorxiv_json :: "string \<Rightarrow> py_exception + biorxiv_response"
  get_csl_path :: "string \<Rightarrow> string option"
  citeproc_html :: "string \<Rightarrow> csl_record \<Rightarrow> py_exception + string"
  write_trace :: "string \<Rightarrow> py_exception option"

definition IndexError_list :: py_exception where
  "IndexError_list = PyException ''IndexError'' ''list index out of range''"

text \<open>The body of the \<open>try\<close> block of \<open>fetch_paper_data_csl\<close>: \<open>Inr None\<close> is its
  \<open>return None\<close>, \<open>Inl\<close> an exception that reaches the \<open>except\<close> clause.\<close>

definition fetch_body :: "world \<Rightarrow> source \<Rightarrow> string \<Rightarrow> py_exception + csl_record option" where
  "fetch_body w source_type paper_id =
     (case source_type of
        pubmed \<Rightarrow>
          (case article_by_pmid w paper_id of
             Inl e \<Rightarrow> Inl e
           | Inr article \<Rightarrow>
               let authors_list = pubmed_authors (pm_authors article) in
               (case pm_year article of
                  Inl e \<Rightarrow> Inl e
                | Inr year \<Rightarrow>
                    Inr (Some \<lparr>csl_id = paper_id, csl_type = ''article-journal'',
                      csl_title = pm_title article, csl_container_title = pm_journal article,
                      csl_volume = pm_volume article, csl_issue = pm_issue article,
                      csl_page = pm_pages article, csl_author = authors_list,
                      csl_issued = [year], csl_URL = None\<rparr>)))
      | arxiv \<Rightarrow>
          (case arxiv_result w paper_id of
             Inl e \<Rightarrow> Inl e
           | Inr paper \<Rightarrow>
               (case arxiv_authors (ax_authors paper) of
                  Inl e \<Rightarrow> Inl e
                | Inr authors_list \<Rightarrow>
                    (case ax_published paper of (y, m, d) \<Rightarrow>
                    Inr (Some \<lparr>csl_id = paper_id, csl_type = ''article-journal'',
                      csl_title = ax_title paper,
                      csl_container_title = Some ''arXiv preprint'',
                      csl_volume = Some (''arXiv:'' @ paper_id), csl_issue = None,
                      csl_page = None, csl_author = authors_list,
                      csl_issued = [y, m, d], csl_URL = ax_entry_id paper\<rparr>))))
      | biorxiv \<Rightarrow>
          (case biorxiv_json w paper_id of
             Inl e \<Rightarrow> Inl e
           | Inr resp \<Rightarrow>
               if bx_messages resp \<noteq> [] \<and> hd (bx_messages resp) = ''ok'' then
                 (if bx_collection resp = [] then Inl IndexError_list
                  else
                    let item = last (bx_collection resp) in
                    (case biorxiv_authors (bx_authors item) of
                       Inl e \<Rightarrow> Inl e
                     | Inr authors_list \<Rightarrow>
                         (case bx_year item of
                            Inl e \<Rightarrow> Inl e
                          | Inr year \<Rightarrow>
                              Inr (Some \<lparr>csl_id = paper_id, csl_type = ''article-journal'',
                                csl_title = bx_title item,
                                csl_container_title = Some ''bioRxiv'',
                                csl_volume = None, csl_issue = None,
                                csl_page = bx_doi item, csl_author = authors_list,
                                csl_issued = [year], csl_URL = None\<rparr>))))
               else Inr None))"

text \<open>\<open>except Exception as e: ... return None\<close>\<close>

definition fetch_paper_data_csl :: "world \<Rightarrow> source \<Rightarrow> string \<Rightarrow> csl_record option" where
  "fetch_paper_data_csl w source_type paper_id =
     (case fetch_body w source_type paper_id of Inl e \<Rightarrow> None | Inr data \<Rightarrow> data)"

section \<open>Searching and substituting with the patterns of \<open>process_csl\<close>\<close>

text \<open>\<open>p in s\<close>, \<open>s.startswith(p)\<close>, \<open>s.rfind(p)\<close> and \<open>s.find(c, start)\<close> (with \<open>None\<close> for -1).\<close>

definition starts_with :: "string \<Rightarrow> string \<Rightarrow> bool" where
  "starts_with p s = (take (length p) s = p)"

fun contains :: "string \<Rightarrow> string \<Rightarrow> bool" where
  "contains p [] = (p = [])"
| "contains p (c # cs) = (starts_with p (c # cs) \<or> contains p cs)"

definition rfind :: "string \<Rightarrow> string \<Rightarrow> nat option" where
  "rfind p s =
     (case filter (\<lambda>i. starts_with p (drop i s)) (rev [0..<Suc (length s)]) of
        [] \<Rightarrow> None
      | i # _ \<Rightarrow> Some i)"

definition find_char :: "char \<Rightarrow> nat \<Rightarrow> string \<Rightarrow> nat option" where
  "find_char c start s =
     (case filter (\<lambda>i. s ! i = c) [start..<length s] of
        [] \<Rightarrow> None
      | i # _ \<Rightarrow> Some i)"

text \<open>\<open>f'{citation_number}'\<close>: the decimal numeral of a number.\<close>

definition digit_char :: "nat \<Rightarrow> char" where
  "digit_char d = ''0123456789'' ! d"

function show_nat :: "nat \<Rightarrow> string" where
  "show_nat n = (if n < 10 then [digit_char n] else show_nat (n div 10) @ [digit_char (n mod 10)])"
  by pat_completeness auto
termination
  by (relation "measure id") auto

declare show_nat.simps [simp del]

text \<open>
  A pattern of the source is modelled by its matcher: from the character before a
  position (\<open>None\<close> at the start of the string) and the text from that position on, the
  length of the match the \<open>re\<close> module finds at the position, or \<open>None\<close> when the pattern
  does not match there. Every pattern of the source starts with a character it requires,
  so no match is empty. The quantifiers of these patterns are greedy and are each followed
  by a character their own class excludes, so giving back characters never turns a
  failure into a match: the matchers take the longest run.
\<close>

type_synonym matcher = "char option \<Rightarrow> string \<Rightarrow> nat option"

text \<open>
  \<open>re.sub(pattern, repl, s)\<close>: the matches are found from left to right, the search for the
  next one starting where the last one ended; each is replaced by \<open>repl\<close> of the matched
  text, the rest is copied. Look-behind (\<open>\b\<close>, \<open>^\<close>) sees the original text.
\<close>

function re_sub :: "matcher \<Rightarrow> (string \<Rightarrow> string) \<Rightarrow> char option \<Rightarrow> string \<Rightarrow> string" where
  "re_sub m repl prev [] = []"
| "re_sub m repl prev (c # cs) =
     (case m prev (c # cs) of
        Some (Suc n) \<Rightarrow>
          repl (take (Suc n) (c # cs)) @ re_sub m repl (Some ((c # cs) ! n)) (drop n cs)
      | _ \<Rightarrow> c # re_sub m repl (Some c) cs)"
  by pat_completeness auto
termination
  by (relation "measure (\<lambda>(m, repl, prev, s). length s)") auto

text \<open>\<open>re.finditer(pattern, s)\<close>: the \<open>(start, end)\<close> of every match, in order.\<close>

function match_spans :: "matcher \<Rightarrow> char option \<Rightarrow> nat \<Rightarrow> string \<Rightarrow> (nat \<times> nat) list" where
  "match_spans m prev pos [] = []"
| "match_spans m prev pos (c # cs) =
     (case m prev (c # cs) of
        Some (Suc n) \<Rightarrow>
          (pos, pos + Suc n) # match_spans m (Some ((c # cs) ! n)) (pos + Suc n) (drop n cs)
      | _ \<Rightarrow> match_spans m (Some c) (Suc pos) cs)"
  by pat_completeness auto
termination
  by (relation "measure (\<lambda>(m, prev, pos, s). length s)") auto

definition finditer :: "matcher \<Rightarrow> string \<Rightarrow> (nat \<times> nat) list" where
  "finditer m s = match_spans m None 0 s"

text \<open>\<open>re.search(pattern, s)\<close>: the first match.\<close>

definition re_search :: "matcher \<Rightarrow> string \<Rightarrow> (nat \<times> nat) option" where
  "re_search m s = (case finditer m s of [] \<Rightarrow> None | sp # _ \<Rightarrow> Some sp)"

text \<open>\<open>\b\<close>: exactly one of the two neighbours is a word character.\<close>

definition word_boundary :: "char option \<Rightarrow> string \<Rightarrow> bool" where
  "word_boundary prev s =
     ((case prev of None \<Rightarrow> False | Some c \<Rightarrow> is_word c)
      \<noteq> (case s of [] \<Rightarrow> False | c # _ \<Rightarrow> is_word c))"

text \<open>\<open>^\<close> under \<open>re.MULTILINE\<close>: the start of the string, or just after a newline.\<close>

definition line_start :: "char option \<Rightarrow> bool" where
  "line_start prev = (prev = None \<or> prev = Some (CHR 0x0A))"

definition digits_len :: "string \<Rightarrow> nat" where
  "digits_len s = length (takeWhile is_digit s)"

definition spaces_len :: "string \<Rightarrow> nat" where
  "spaces_len s = length (takeWhile is_space s)"

subsection \<open>The patterns of the \<open>et al.\<close> step\<close>

text \<open>\<open>r'\bet al\.'\<close> with \<open>re.IGNORECASE\<close>\<close>

definition pat_et_al_dot :: matcher where
  "pat_et_al_dot prev s =
     (if word_boundary prev s \<and> lower (take 6 s) = ''et al.'' then Some 6 else None)"

text \<open>\<open>r'\bet al\b(?!\.)'\<close> with \<open>re.IGNORECASE\<close>\<close>

definition pat_et_al_bare :: matcher where
  "pat_et_al_bare prev s =
     (if word_boundary prev s \<and> lower (take 5 s) = ''et al''
         \<and> word_boundary (Some (s ! 4)) (drop 5 s) \<and> \<not> starts_with ''.'' (drop 5 s)
      then Some 5 else None)"

text \<open>The length \<open>([A-Z]\.?\s*)*\<close> takes at the start of a text.\<close>

function initial_groups :: "string \<Rightarrow> nat" where
  "initial_groups [] = 0"
| "initial_groups (c # cs) =
     (if is_upper c then
        (let d = (if starts_with ''.'' cs then 1 else 0);
             w = spaces_len (drop d cs)
         in 1 + d + w + initial_groups (drop (d + w) cs))
      else 0)"
  by pat_completeness auto
termination
  by (relation "measure length") auto

text \<open>\<open>re.escape(family) + r',\s+([A-Z]\.?\s*)+\.?'\<close>\<close>

definition pat_author :: "string \<Rightarrow> matcher" where
  "pat_author family_name prev s =
     (if starts_with (family_name @ '','') s then
        (let r = drop (length family_name + 1) s;
             w = spaces_len r;
             g = initial_groups (drop w r);
             d = (if starts_with ''.'' (drop (w + g) r) then 1 else 0)
         in if w > 0 \<and> g > 0 then Some (length family_name + 1 + w + g + d) else None)
      else None)"

text \<open>The length \<open>(?:\s+[A-Z]\.?)*\<close> takes at the start of a text.\<close>

function spaced_initials :: "string \<Rightarrow> nat" where
  "spaced_initials s =
     (let w = spaces_len s in
      if w > 0 \<and> (case drop w s of [] \<Rightarrow> False | c # _ \<Rightarrow> is_upper c) then
        (let d = (if starts_with ''.'' (drop (w + 1) s) then 1 else 0)
         in w + 1 + d + spaced_initials (drop (w + 1 + d) s))
      else 0)"
  by pat_completeness auto
termination
proof (relation "measure length")
  show "wf (measure length)" by simp
next
  fix s :: string and w d
  assume "w = spaces_len s" and "0 < w \<and> (case drop w s of [] \<Rightarrow> False | c # _ \<Rightarrow> is_upper c)"
  then have "s \<noteq> []" by (auto simp: spaces_len_def)
  then show "(drop (w + 1 + d) s, s) \<in> measure length" by (cases s) auto
qed

declare spaced_initials.simps [simp del]

text \<open>\<open>r',\s+[A-Z]\.?(?:\s+[A-Z]\.?)*\.?'\<close>\<close>

definition pat_initials :: matcher where
  "pat_initials prev s =
     (if starts_with '','' s then
        (let r = drop 1 s;
             w = spaces_len r
         in if w > 0 \<and> (case drop w r of [] \<Rightarrow> False | c # _ \<Rightarrow> is_upper c) then
              (let d = (if starts_with ''.'' (drop (w + 1) r) then 1 else 0);
                   g = spaced_initials (drop (w + 1 + d) r);
                   e = (if starts_with ''.'' (drop (w + 1 + d + g) r) then 1 else 0)
               in Some (1 + w + 1 + d + g + e))
            else None)
      else None)"

subsection \<open>The patterns of the numbering step\<close>

text \<open>\<open>r'(\d+\.)([A-Za-z])'\<close>\<close>

definition pat_num_letter :: matcher where
  "pat_num_letter prev s =
     (let n = digits_len s in
      if n > 0 \<and> (case drop n s of d # l # _ \<Rightarrow> d = CHR ''.'' \<and> is_alpha l | _ \<Rightarrow> False)
      then Some (n + 2) else None)"

text \<open>\<open>r'(\d+\.</div>)([A-Za-z])'\<close>\<close>

definition pat_num_div_letter :: matcher where
  "pat_num_div_letter prev s =
     (let n = digits_len s in
      if n > 0 \<and> starts_with ''.</div>'' (drop n s)
         \<and> (case drop (n + 7) s of l # _ \<Rightarrow> is_alpha l | _ \<Rightarrow> False)
      then Some (n + 8) else None)"

text \<open>\<open>r'^(\d+\.)([A-Za-z])'\<close> with \<open>re.MULTILINE\<close>\<close>

definition pat_line_num_letter :: matcher where
  "pat_line_num_letter prev s = (if line_start prev then pat_num_letter prev s else None)"

text \<open>The replacement \<open>r'\1\t\2'\<close> of these three: group 2 is the last character of the
  match.\<close>

definition tab_before_last :: "string \<Rightarrow> string" where
  "tab_before_last mt = butlast mt @ [CHR 0x09, last mt]"

text \<open>\<open>r'\d+\.\t'\<close>\<close>

definition pat_num_tab :: matcher where
  "pat_num_tab prev s =
     (let n = digits_len s in
      if n > 0 \<and> starts_with [CHR ''.'', CHR 0x09] (drop n s) then Some (n + 2) else None)"

definition margin_open :: string where
  \<open>margin_open = ''<div class="csl-left-margin">''\<close>

text \<open>\<open>r'(<div class="csl-left-margin">)\d+(\.?</div>)'\<close>\<close>

definition pat_margin :: matcher where
  "pat_margin prev s =
     (if starts_with margin_open s then
        (let r = drop (length margin_open) s;
             n = digits_len r;
             d = (if starts_with ''.'' (drop n r) then 1 else 0)
         in if n > 0 \<and> starts_with ''</div>'' (drop (n + d) r)
            then Some (length margin_open + n + d + 6) else None)
      else None)"

text \<open>Its replacement \<open>rf'\g<1>{citation_number}\g<2>'\<close>\<close>

definition repl_margin :: "nat \<Rightarrow> string \<Rightarrow> string" where
  "repl_margin k mt =
     margin_open @ show_nat k @ dropWhile is_digit (drop (length margin_open) mt)"

text \<open>\<open>r'^(\s*)\d+\.(\s)'\<close> with \<open>re.MULTILINE\<close>\<close>

definition pat_line_num :: matcher where
  "pat_line_num prev s =
     (if line_start prev then
        (let w = spaces_len s;
             n = digits_len (drop w s)
         in if n > 0 \<and> (case drop (w + n) s of d # b # _ \<Rightarrow> d = CHR ''.'' \<and> is_space b
                           | _ \<Rightarrow> False)
            then Some (w + n + 2) else None)
      else None)"

text \<open>Its replacement \<open>rf'\g<1>{citation_number}.\g<2>'\<close>\<close>

definition repl_line_num :: "nat \<Rightarrow> string \<Rightarrow> string" where
  "repl_line_num k mt = takeWhile is_space mt @ show_nat k @ ''.'' @ [last mt]"

text \<open>\<open>r'(>)\s*\d+\.(\s)'\<close>\<close>

definition pat_tag_num :: matcher where
  "pat_tag_num prev s =
     (if starts_with ''>'' s then
        (let r = drop 1 s;
             w = spaces_len r;
             n = digits_len (drop w r)
         in if n > 0 \<and> (case drop (w + n) r of d # b # _ \<Rightarrow> d = CHR ''.'' \<and> is_space b
                           | _ \<Rightarrow> False)
            then Some (1 + w + n + 2) else None)
      else None)"

text \<open>Its replacement \<open>rf'\g<1>{citation_number}.\g<2>'\<close>\<close>

definition repl_tag_num :: "nat \<Rightarrow> string \<Rightarrow> string" where
  "repl_tag_num k mt = ''>'' @ show_nat k @ ''.'' @ [last mt]"

subsection \<open>The patterns of the punctuation cleanup\<close>

text \<open>\<open>r'\.\.+'\<close>\<close>

definition pat_dots :: matcher where
  "pat_dots prev s =
     (if starts_with ''..'' s then Some (length (takeWhile (\<lambda>c. c = CHR ''.'') s)) else None)"

text \<open>\<open>r'\.\s+\.'\<close>\<close>

definition pat_dot_space_dot :: matcher where
  "pat_dot_space_dot prev s =
     (if starts_with ''.'' s then
        (let w = spaces_len (drop 1 s)
         in if w > 0 \<and> starts_with ''.'' (drop (1 + w) s) then Some (w + 2) else None)
      else None)"

section \<open>The citation post-processor: \<open>process_csl\<close>\<close>

subsection \<open>The \<open>et al.\<close> step (lines 391 to 520)\<close>

definition et_al_mark :: string where
  "et_al_mark = '' <i>et al.</i>''"

text \<open>\<open>result_html[:insert_pos] + ' <i>et al.</i>' + result_html[insert_pos:]\<close>\<close>

definition insert_et_al :: "nat \<Rightarrow> string \<Rightarrow> string" where
  "insert_et_al insert_pos result_html =
     take insert_pos result_html @ et_al_mark @ drop insert_pos result_html"

text \<open>\<open>result_html.rstrip() + ' <i>et al.</i>'\<close>\<close>

definition append_et_al :: "string \<Rightarrow> string" where
  "append_et_al result_html = rstrip result_html @ et_al_mark"

text \<open>The loop that counts the authors whose family name is not empty and occurs in the
  rendered text.\<close>

definition displayed_author_count :: "person list \<Rightarrow> string \<Rightarrow> nat" where
  "displayed_author_count authors result_html =
     length (filter (\<lambda>a. family a \<noteq> [] \<and> contains (family a) result_html) authors)"

definition has_et_al :: "string \<Rightarrow> bool" where
  "has_et_al result_html = contains ''et al'' (lower result_html)"

definition authors_omitted :: "person list \<Rightarrow> string \<Rightarrow> bool" where
  "authors_omitted authors result_html =
     (length authors > displayed_author_count authors result_html)"

text \<open>The branch \<open>if has_et_al:\<close>: both substitutions, one after the other.\<close>

definition italicize_et_al :: "string \<Rightarrow> string" where
  "italicize_et_al result_html =
     re_sub pat_et_al_bare (\<lambda>mt. ''<i>et al.</i>'') None
       (re_sub pat_et_al_dot (\<lambda>mt. ''<i>et al.</i>'') None result_html)"

text \<open>The branch taken when the family and the given name of the last displayed author
  are both non-empty (lines 445 to 516).\<close>

definition insert_after_author :: "string \<Rightarrow> string \<Rightarrow> string" where
  "insert_after_author last_family result_html =
     (case finditer (pat_author last_family) result_html of
        sp # sps \<Rightarrow> insert_et_al (snd (last (sp # sps))) result_html
      | [] \<Rightarrow>
          (case rfind last_family result_html of
             Some last_family_pos \<Rightarrow>
               (let search_range = take 100 (drop last_family_pos result_html) in
                case re_search pat_initials search_range of
                  Some (st, en) \<Rightarrow> insert_et_al (last_family_pos + en) result_html
                | None \<Rightarrow>
                    (case find_char CHR ''.'' last_family_pos result_html of
                       Some period_pos \<Rightarrow> insert_et_al (period_pos + 1) result_html
                     | None \<Rightarrow> append_et_al result_html))
           | None \<Rightarrow> append_et_al result_html))"

text \<open>The branch \<open>elif authors_omitted:\<close>\<close>

definition add_et_al :: "person list \<Rightarrow> string \<Rightarrow> string" where
  "add_et_al authors result_html =
     (let displayed = displayed_author_count authors result_html;
          last_displayed =
            (if displayed > 0 \<and> displayed - 1 < length authors
             then Some (authors ! (displayed - 1)) else None)
      in case last_displayed of
           Some a \<Rightarrow>
             if family a \<noteq> [] \<and> given a \<noteq> []
             then insert_after_author (family a) result_html
             else append_et_al result_html
         | None \<Rightarrow> append_et_al result_html)"

definition et_al_step :: "person list \<Rightarrow> string \<Rightarrow> string" where
  "et_al_step authors result_html =
     (if has_et_al result_html then italicize_et_al result_html
      else if authors_omitted authors result_html then add_et_al authors result_html
      else result_html)"

subsection \<open>The numbering step (lines 525 to 568)\<close>

definition insert_tabs :: "string \<Rightarrow> string" where
  "insert_tabs result_html =
     re_sub pat_line_num_letter tab_before_last None
       (re_sub pat_num_div_letter tab_before_last None
         (re_sub pat_num_letter tab_before_last None result_html))"

definition renumber :: "nat option \<Rightarrow> string \<Rightarrow> string" where
  "renumber citation_number result_html =
     (case citation_number of
        Some k \<Rightarrow>
          re_sub pat_tag_num (repl_tag_num k) None
            (re_sub pat_line_num (repl_line_num k) None
              (re_sub pat_margin (repl_margin k) None
                (re_sub pat_num_tab (\<lambda>mt. show_nat k @ [CHR ''.'', CHR 0x09]) None
                   result_html)))
      | None \<Rightarrow> re_sub pat_num_tab (\<lambda>mt. []) None result_html)"

definition number_step :: "nat option \<Rightarrow> string \<Rightarrow> string" where
  "number_step citation_number result_html = renumber citation_number (insert_tabs result_html)"

subsection \<open>Tabs and punctuation (lines 570 to 578)\<close>

text \<open>\<open>result_html.replace('\t', '&nbsp;&nbsp;&nbsp;&nbsp;')\<close>\<close>

definition tabs_to_nbsp :: "string \<Rightarrow> string" where
  "tabs_to_nbsp result_html =
     concat (map (\<lambda>c. if c = CHR 0x09 then ''&nbsp;&nbsp;&nbsp;&nbsp;'' else [c]) result_html)"

definition collapse_dots :: "string \<Rightarrow> string" where
  "collapse_dots result_html = re_sub pat_dots (\<lambda>mt. ''.'') None result_html"

definition collapse_dot_space_dot :: "string \<Rightarrow> string" where
  "collapse_dot_space_dot result_html = re_sub pat_dot_space_dot (\<lambda>mt. ''.'') None result_html"

definition punctuation_cleanup :: "string \<Rightarrow> string" where
  "punctuation_cleanup result_html = collapse_dot_space_dot (collapse_dots result_html)"

subsection \<open>The whole function\<close>

text \<open>The text transformations between the raw output of the renderer and the returned
  string, none of which can raise.\<close>

definition post_process :: "csl_record \<Rightarrow> nat option \<Rightarrow> string \<Rightarrow> string" where
  "post_process csl_json_data citation_number result_html =
     punctuation_cleanup
       (tabs_to_nbsp
         (number_step citation_number
           (et_al_step (csl_author csl_json_data) result_html)))"

definition DEBUG_DIR :: string where
  "DEBUG_DIR = ''csl_debug_output''"

text \<open>\<open>os.path.join(DEBUG_DIR, name)\<close>, with \<open>/\<close> as the separator: a second component that
  starts with the separator replaces the first.\<close>

definition debug_prefix :: "string \<Rightarrow> string \<Rightarrow> string" where
  "debug_prefix item_id style_name =
     (let name = item_id @ ''_'' @ style_name in
      if starts_with ''/'' name then name else DEBUG_DIR @ ''/'' @ name)"

text \<open>The body of the \<open>try\<close> block: the string returned, or the exception that reaches the
  \<open>except\<close> clause.\<close>

definition process_csl_body ::
  "world \<Rightarrow> string \<Rightarrow> csl_record \<Rightarrow> string \<Rightarrow> nat option \<Rightarrow> py_exception + string" where
  "process_csl_body w csl_path csl_json_data style_name citation_number =
     (let item_id = csl_id csl_json_data;
          trace = debug_prefix item_id style_name
      in case write_trace w (trace @ ''_1_input_data.json'') of
           Some e \<Rightarrow> Inl e
         | None \<Rightarrow>
             (case citeproc_html w csl_path csl_json_data of
                Inl e \<Rightarrow> Inl e
              | Inr result_html \<Rightarrow>
                  (case write_trace w (trace @ ''_2_csl_raw_output.html'') of
                     Some e \<Rightarrow> Inl e
                   | None \<Rightarrow>
                       if strip result_html = [] then
                         (case write_trace w (trace @ ''_3_debug_info.json'') of
                            Some e \<Rightarrow> Inl e
                          | None \<Rightarrow>
                              Inr (''CSL Formatting produced no output for '' @ item_id))
                       else
                         (let final = post_process csl_json_data citation_number result_html
                          in case write_trace w (trace @ ''_4_final_html_output.html'') of
                               Some e \<Rightarrow> Inl e
                             | None \<Rightarrow> Inr final))))"

text \<open>\<open>process_csl\<close>: \<open>Inl\<close> is an exception that leaves the function, which only the
  \<open>except\<close> clause itself can raise, when it writes the error log.\<close>

definition process_csl ::
  "world \<Rightarrow> csl_record \<Rightarrow> string \<Rightarrow> nat option \<Rightarrow> py_exception + string" where
  "process_csl w csl_json_data style_name citation_number =
     (case get_csl_path w style_name of
        None \<Rightarrow> Inr ''Style Load Error''
      | Some csl_path \<Rightarrow>
          (let item_id = csl_id csl_json_data in
           case process_csl_body w csl_path csl_json_data style_name citation_number of
             Inr html \<Rightarrow> Inr html
           | Inl e \<Rightarrow>
               (case write_trace w (debug_prefix item_id style_name @ ''_error.log'') of
                  Some e' \<Rightarrow> Inl e'
                | None \<Rightarrow>
                    Inr (''CSL Formatting Error for '' @ item_id @ '': '' @ exc_text e))))"

section \<open>The batch orchestrator: \<open>generate\<close>\<close>

record request =
  ids :: string
  style :: string
  sortAlphabetically :: bool

record citation =
  csl_data :: "csl_record option"
  sort_key :: string
  original_id :: string
  error :: bool

text \<open>\<open>s.splitlines()\<close>: the line boundaries below code point 128 are \<open>\n\<close>, \<open>\r\<close>,
  \<open>\r\n\<close>, \<open>\v\<close>, \<open>\f\<close> and the separators \<open>\x1c\<close>, \<open>\x1d\<close>, \<open>\x1e\<close>; a boundary at the very
  end opens no further line.\<close>

definition is_linebreak :: "char \<Rightarrow> bool" where
  "is_linebreak c = (c \<in> {CHR 0x0A, CHR 0x0B, CHR 0x0C, CHR 0x0D, CHR 0x1C, CHR 0x1D, CHR 0x1E})"

fun splitlines_from :: "string \<Rightarrow> string \<Rightarrow> string list" where
  "splitlines_from cur [] = (if cur = [] then [] else [cur])"
| "splitlines_from cur (c # cs) =
     (if c = CHR 0x0D \<and> starts_with [CHR 0x0A] cs then cur # splitlines_from [] (tl cs)
      else if is_linebreak c then cur # splitlines_from [] cs
      else splitlines_from (cur @ [c]) cs)"

definition splitlines :: "string \<Rightarrow> string list" where
  "splitlines s = splitlines_from [] s"

text \<open>\<open>s.isdigit()\<close>\<close>

definition str_isdigit :: "string \<Rightarrow> bool" where
  "str_isdigit s = (s \<noteq> [] \<and> (\<forall>c \<in> set s. is_digit c))"

definition classify :: "string \<Rightarrow> source" where
  "classify line =
     (if str_isdigit line then pubmed
      else if contains ''10.1101'' line then biorxiv
      else if contains ''.'' line \<and> length line < 15 then arxiv
      else pubmed)"

text \<open>One round of the first loop, for a stripped, non-empty line.\<close>

definition make_citation :: "world \<Rightarrow> string \<Rightarrow> citation" where
  "make_citation w line =
     (case fetch_paper_data_csl w (classify line) line of
        Some data \<Rightarrow>
          (let first_author_family =
                 (case csl_author data of [] \<Rightarrow> [] | a # _ \<Rightarrow> family a)
           in \<lparr>csl_data = Some data, sort_key = lower first_author_family,
                original_id = line, error = False\<rparr>)
      | None \<Rightarrow> \<lparr>csl_data = None, sort_key = [], original_id = line, error = True\<rparr>)"

definition collect_citations :: "world \<Rightarrow> string \<Rightarrow> citation list" where
  "collect_citations w input_text =
     map (make_citation w) (filter (\<lambda>line. line \<noteq> []) (map strip (splitlines input_text)))"

text \<open>
  The reordering under \<open>if sort_alphabetically:\<close>. \<open>list.sort(key=...)\<close> is a stable sort
  by the keys, which are strings compared code point by code point; \<^const>\<open>sort_key\<close> is
  the stable sort of the list library, on the lexicographic order of strings.
\<close>

definition order_citations :: "bool \<Rightarrow> citation list \<Rightarrow> citation list" where
  "order_citations sort_alphabetically citation_data =
     (if sort_alphabetically then
        (let valid_citations = filter (\<lambda>c. \<not> error c) citation_data;
             error_citations = filter (\<lambda>c. error c) citation_data
         in List.sort_key sort_key valid_citations @ error_citations)
      else citation_data)"

definition error_message :: "string \<Rightarrow> string" where
  "error_message ident =
     ''<span style='' @ [CHR 0x27] @ ''color:red'' @ [CHR 0x27]
       @ ''>Not Found or Fetch Error: '' @ ident @ ''</span>''"

definition AttributeError_None :: py_exception where
  "AttributeError_None =
     PyException ''AttributeError''
       ([CHR 0x27] @ ''NoneType'' @ [CHR 0x27] @ '' object has no attribute ''
        @ [CHR 0x27] @ ''get'' @ [CHR 0x27])"

text \<open>
  The second loop, with its counter \<open>citation_number\<close> passed along. An exception that
  leaves \<open>process_csl\<close> is not caught here: it ends the loop and the request.
\<close>

fun render_citations ::
  "world \<Rightarrow> string \<Rightarrow> bool \<Rightarrow> nat \<Rightarrow> citation list \<Rightarrow> py_exception + string list" where
  "render_citations w style_name sort_alphabetically citation_number [] = Inr []"
| "render_citations w style_name sort_alphabetically citation_number (item # items) =
     (if error item then
        (if sort_alphabetically then
           (case render_citations w style_name sort_alphabetically citation_number items of
              Inl e \<Rightarrow> Inl e
            | Inr results \<Rightarrow> Inr (error_message (original_id item) # results))
         else
           (case render_citations w style_name sort_alphabetically (citation_number + 1) items of
              Inl e \<Rightarrow> Inl e
            | Inr results \<Rightarrow>
                Inr ((show_nat citation_number @ ''. '' @ error_message (original_id item))
                     # results)))
      else
        (case csl_data item of
           None \<Rightarrow> Inl AttributeError_None
         | Some data \<Rightarrow>
             if sort_alphabetically then
               (case process_csl w data style_name None of
                  Inl e \<Rightarrow> Inl e
                | Inr formatted_html \<Rightarrow>
                    (case render_citations w style_name sort_alphabetically citation_number
                            items of
                       Inl e \<Rightarrow> Inl e
                     | Inr results \<Rightarrow> Inr (formatted_html # results)))
             else
               (case process_csl w data style_name (Some citation_number) of
                  Inl e \<Rightarrow> Inl e
                | Inr formatted_html \<Rightarrow>
                    (case render_citations w style_name sort_alphabetically
                            (citation_number + 1) items of
                       Inl e \<Rightarrow> Inl e
                     | Inr results \<Rightarrow> Inr (formatted_html # results)))))"

text \<open>\<open>generate\<close>: the list put under \<open>citations\<close> in the response, or the exception that
  ends the request.\<close>

definition generate :: "world \<Rightarrow> request \<Rightarrow> py_exception + string list" where
  "generate w req =
     render_citations w (style req) (sortAlphabetically req) 1
       (order_citations (sortAlphabetically req) (collect_citations w (ids req)))"

section \<open>Counting occurrences\<close>


section \<open>Example worlds\<close>

definition not_found :: py_exception where
  "not_found = PyException ''Exception'' ''not found''"

text \<open>A world in which arXiv knows one paper, whose second author name has two spaces
  between the given and the family name, and nothing else is found.\<close>

definition double_space_paper :: arxiv_paper where
  "double_space_paper =
     \<lparr>ax_authors = [''Ada Lovelace'', ''John  Smith''], ax_title = Some ''A title'',
      ax_published = (2021, 1, 1), ax_entry_id = Some ''http://arxiv.org/abs/2101.00001''\<rparr>"

definition double_space_world :: world where
  "double_space_world =
     \<lparr>article_by_pmid = (\<lambda>paper_id. Inl not_found),
      arxiv_result = (\<lambda>paper_id. if paper_id = ''2101.00001'' then Inr double_space_paper
                                  else Inl not_found),
      biorxiv_json = (\<lambda>paper_id. Inl not_found),
      get_csl_path = (\<lambda>style_name. Some (''csl_styles/'' @ style_name @ ''.csl'')),
      citeproc_html = (\<lambda>csl_path data. Inr (''1.'' @ csl_id data)),
      write_trace = (\<lambda>path. None)\<rparr>"

text \<open>A world in which PubMed knows two articles, the renderer numbers every entry
  \<open>1.\<close> and glues the number to the first author, and every trace write succeeds.\<close>

definition sample_article :: "string list \<Rightarrow> pubmed_article" where
  "sample_article authors =
     \<lparr>pm_authors = authors, pm_title = Some ''T'', pm_journal = Some ''J'',
      pm_volume = None, pm_issue = None, pm_pages = None, pm_year = Inr 2020\<rparr>"

definition sample_html :: "csl_record \<Rightarrow> string" where
  "sample_html data =
     ''1.'' @ (case csl_author data of [] \<Rightarrow> [] | a # _ \<Rightarrow> family a) @ '' T''"

definition sample_world :: world where
  "sample_world =
     \<lparr>article_by_pmid =
        (\<lambda>paper_id. if paper_id = ''11'' then Inr (sample_article [''Zhang W'', ''Li Q''])
                     else if paper_id = ''22'' then Inr (sample_article [''Adams JB''])
                     else Inl not_found),
      arxiv_result = (\<lambda>paper_id. Inl not_found),
      biorxiv_json = (\<lambda>paper_id. Inl not_found),
      get_csl_path = (\<lambda>style_name. Some (''csl_styles/'' @ style_name @ ''.csl'')),
      citeproc_html = (\<lambda>csl_path data. Inr (sample_html data)),
      write_trace = (\<lambda>path. None)\<rparr>"

text \<open>The request body \<open>11\<close>, \<open>x\<close>, \<open>22\<close> on three lines.\<close>

definition sample_ids :: string where
  "sample_ids = ''11'' @ [CHR 0x0A] @ ''x'' @ [CHR 0x0A] @ ''22''"

text \<open>
  A world whose trace directory is as the program creates it at start-up: the directory
  \<open>csl_debug_output\<close> exists and has no subdirectory, so a file directly inside it can be
  opened for writing and a path with a further \<open>/\<close> cannot. PubMed knows the article
  \<open>11\<close>, bioRxiv the preprint \<open>10.1101/2020.01.01.123456\<close>.
\<close>

definition FileNotFoundError :: "string \<Rightarrow> py_exception" where
  "FileNotFoundError path =
     PyException ''FileNotFoundError''
       (''[Errno 2] No such file or directory: '' @ [CHR 0x27] @ path @ [CHR 0x27])"

definition flat_trace_dir :: "string \<Rightarrow> py_exception option" where
  "flat_trace_dir path =
     (if starts_with (DEBUG_DIR @ ''/'') path
         \<and> CHR ''/'' \<notin> set (drop (length DEBUG_DIR + 1) path)
      then None else Some (FileNotFoundError path))"

definition sample_preprint :: biorxiv_response where
  "sample_preprint =
     \<lparr>bx_messages = [''ok''],
      bx_collection = [\<lparr>bx_authors = ''Jane Doe; Rich Roe'', bx_title = Some ''T'',
                         bx_doi = Some ''10.1101/2020.01.01.123456'', bx_year = Inr 2020\<rparr>]\<rparr>"

definition flat_trace_world :: world where
  "flat_trace_world =
     \<lparr>article_by_pmid =
        (\<lambda>paper_id. if paper_id = ''11'' then Inr (sample_article [''Zhang W'', ''Li Q''])
                     else Inl not_found),
      arxiv_result = (\<lambda>paper_id. Inl not_found),
      biorxiv_json =
        (\<lambda>paper_id. if paper_id = ''10.1101/2020.01.01.123456'' then Inr sample_preprint
                     else Inl not_found),
      get_csl_path = (\<lambda>style_name. Some (''csl_styles/'' @ style_name @ ''.csl'')),
      citeproc_html = (\<lambda>csl_path data. Inr (sample_html data)),
      write_trace = flat_trace_dir\<rparr>"



text \<open>A record with two authors, and a rendering of it that names the first author only
  and contains \<open>et al.\<close> twice.\<close>

definition two_authors :: csl_record where
  "two_authors =
     \<lparr>csl_id = ''7'', csl_type = ''article-journal'', csl_title = Some ''On et al. in titles'',
      csl_container_title = Some ''J'', csl_volume = None, csl_issue = None, csl_page = None,
      csl_author = [\<lparr>family = ''Smith'', given = ''J.'', non_dropping_particle = None\<rparr>,
                    \<lparr>family = ''Jones'', given = ''A.'', non_dropping_particle = None\<rparr>],
      csl_issued = [2020], csl_URL = None\<rparr>"


text \<open>The sample world with a renderer that raises for every entry.\<close>

definition raising_world :: world where
  "raising_world =
     sample_world \<lparr>citeproc_html := (\<lambda>csl_path data. Inl (PyException ''ValueError'' ''bad style''))\<rparr>"

section \<open>Properties\<close>

subsection \<open>The given-name formatter\<close>



subsection \<open>Helper facts about the string primitives\<close>

lemmas char_class_defs = is_space_def is_lower_def is_upper_def is_alpha_def is_digit_def
  is_word_def str_isupper_def str_isalpha_def

lemma upper_scan_None:
  "upper_scan i parts = None \<longleftrightarrow> (\<forall>part \<in> set parts. part = [] \<or> \<not> is_upper (hd part))"
  by (induction parts arbitrary: i) auto

lemma length_split_on_from: "length (split_on_from d cur s) = Suc (count_list s d)"
  by (induction s arbitrary: cur) auto

lemma count_list_pos: "0 < count_list s d \<longleftrightarrow> d \<in> set s"
  by (induction s) auto

lemma split_on_two: "2 \<le> length (split_on d s) \<longleftrightarrow> d \<in> set s"
  by (simp add: split_on_def length_split_on_from count_list_pos Suc_le_eq numeral_2_eq_2)

subsection \<open>The name parser\<close>

text \<open>
  C7, as the specification states it: in the pubmed branch the fallback for "no token
  starts with an uppercase letter" is unreachable for names of at least two tokens. The
  code refutes it: \<open>van der\<close> has two tokens, the scan finds no uppercase start, and the
  fallback is executed.
\<close>

theorem pubmed_fallback_counterexample:
  "length (split_ws ''van der'') = 2
   \<and> upper_scan 0 (split_on CHR '' '' ''van der'') = None
   \<and> pubmed_fallback_executed ''van der''"
  by (simp add: split_ws_def split_on_def pubmed_fallback_executed_def char_class_defs)

text \<open>
  C7, amended: the fallback of the pubmed branch is executed exactly for the names that
  contain a space and in which no space-separated token starts with an uppercase letter;
  it then takes the first token as the family name and the formatted rest as the given
  name. For a name with a token that starts with an uppercase letter it is not executed.
\<close>

theorem pubmed_fallback_reachable:
  "(pubmed_fallback_executed author_name \<longleftrightarrow>
      CHR '' '' \<in> set author_name
      \<and> (\<forall>part \<in> set (split_on CHR '' '' author_name). part = [] \<or> \<not> is_upper (hd part)))
   \<and> (pubmed_fallback_executed author_name \<longrightarrow>
      pubmed_author author_name =
        Some \<lparr>family = hd (split_on CHR '' '' author_name),
              given = process_given_name (join '' '' (tl (split_on CHR '' '' author_name))),
              non_dropping_particle = None\<rparr>)"
proof -
  let ?parts = "split_on CHR '' '' author_name"
  have a: "pubmed_fallback_executed author_name \<longleftrightarrow>
      CHR '' '' \<in> set author_name
      \<and> (\<forall>part \<in> set ?parts. part = [] \<or> \<not> is_upper (hd part))"
    unfolding pubmed_fallback_executed_def upper_scan_None split_on_two by auto
  have b: "pubmed_author author_name =
        Some \<lparr>family = hd ?parts, given = process_given_name (join '' '' (tl ?parts)),
              non_dropping_particle = None\<rparr>"
    if h: "pubmed_fallback_executed author_name"
  proof -
    from h have ne: "author_name \<noteq> []" and len: "2 \<le> length ?parts"
      and scan: "upper_scan 0 ?parts = None"
      by (simp_all add: pubmed_fallback_executed_def)
    from len obtain p q ps where parts: "?parts = p # q # ps"
      by (cases ?parts; cases "tl ?parts") auto
    show ?thesis
      using ne scan parts by (simp add: pubmed_author_def given_after_def)
  qed
  from a b show ?thesis by blast
qed

theorem pubmed_fallback_reachable_witness:
  "pubmed_fallback_executed ''van der''
   \<and> pubmed_author ''van der'' =
       Some \<lparr>family = ''van'', given = ''der'', non_dropping_particle = None\<rparr>"
  using pubmed_fallback_reachable [of "''van der''"]
  by (simp add: split_on_def char_class_defs process_given_name_def split_ws_def)

text \<open>
  C5 says that no source emits an entry for an empty or blank name segment. The pubmed
  branch skips the empty name (\<open>if not author_name: continue\<close>); the arxiv and biorxiv
  branches have no such test, and the pubmed test lets a blank name through. Evaluated on
  the code: the bioRxiv author field \<open>Jane Doe;\<close> gives a second entry with an empty family
  name, the empty arXiv name gives such an entry, and so does the pubmed name made of one
  space.
\<close>

theorem empty_segment_emits_record:
  "biorxiv_authors ''Jane Doe;'' =
     Inr [\<lparr>family = ''Doe'', given = ''Jane'', non_dropping_particle = None\<rparr>,
          \<lparr>family = [], given = [], non_dropping_particle = None\<rparr>]
   \<and> arxiv_author [] = Inr (Some \<lparr>family = [], given = [], non_dropping_particle = None\<rparr>)
   \<and> pubmed_author '' '' = Some \<lparr>family = [], given = [], non_dropping_particle = None\<rparr>"
  by (simp add: biorxiv_authors_def biorxiv_author_def arxiv_author_def pubmed_author_def
      particle_author_def split_on_def strip_def rstrip_def first_char_def given_after_def
      process_given_name_def split_ws_def char_class_defs)

lemma split_on_from_append:
  "split_on_from d cur (a @ d # b) = split_on_from d cur a @ split_on_from d [] b"
  by (induction a arbitrary: cur) auto

lemma split_on_from_no_sep: "d \<notin> set s \<Longrightarrow> split_on_from d cur s = [cur @ s]"
  by (induction s arbitrary: cur) auto

lemma split_on_double:
  assumes "d \<notin> set fam"
  shows "split_on d (pre @ [d, d] @ fam) = split_on d pre @ [[], fam]"
  using assms by (simp add: split_on_def split_on_from_append split_on_from_no_sep)

lemma split_on_nonempty: "split_on d s \<noteq> []"
  using length_split_on_from [of d "[]" s] by (auto simp: split_on_def)

lemma particle_author_empty_before_last:
  assumes "ps \<noteq> []"
  shows "particle_author (ps @ [[], fam]) = Inl IndexError_string"
proof -
  have "length (ps @ [[], fam]) - 1 = Suc (length ps)" by simp
  moreover have "family_scan (ps @ [[], fam]) (Suc (length ps)) = Inl IndexError_string"
    by (simp add: first_char_def)
  ultimately show ?thesis
    by (simp add: particle_author_def)
qed

lemma collect_authors_raises:
  "name \<in> set names \<Longrightarrow> f name = Inl e \<Longrightarrow> \<exists>e'. collect_authors f names = Inl e'"
  by (induction names) (auto split: sum.splits)

lemma show_nat_digit: "n < 10 \<Longrightarrow> show_nat n = [digit_char n]"
  by (simp add: show_nat.simps)

text \<open>
  C10. An arXiv or bioRxiv author name with two consecutive spaces just before its last
  token has an empty token to the left of the family name: the right-to-left scan reads
  the first character of that token and raises \<open>IndexError\<close>. The exception ends the record
  build, \<open>fetch_paper_data_csl\<close> returns \<open>None\<close>, and the entry is rendered as a fetch
  error.
\<close>

theorem double_space_is_fetch_error:
  assumes "CHR '' '' \<notin> set fam" and "name = pre @ ''  '' @ fam"
  shows "arxiv_author name = Inl IndexError_string
    \<and> (strip auth = name \<longrightarrow> biorxiv_author auth = Inl IndexError_string)
    \<and> (arxiv_result w line = Inr paper \<and> name \<in> set (ax_authors paper) \<longrightarrow>
         fetch_paper_data_csl w arxiv line = None)
    \<and> (classify line = arxiv \<and> arxiv_result w line = Inr paper \<and> name \<in> set (ax_authors paper) \<longrightarrow>
         make_citation w line
           = \<lparr>csl_data = None, sort_key = [], original_id = line, error = True\<rparr>
         \<and> render_citations w style_name False n [make_citation w line]
           = Inr [show_nat n @ ''. '' @ error_message line])"
proof -
  have parts: "particle_author (split_on CHR '' '' name) = Inl IndexError_string"
    using assms split_on_double [of "CHR '' ''" fam pre]
      particle_author_empty_before_last [OF split_on_nonempty, of "CHR '' ''" pre fam]
    by simp
  then have a: "arxiv_author name = Inl IndexError_string"
    by (simp add: arxiv_author_def)
  have b: "biorxiv_author auth = Inl IndexError_string" if "strip auth = name"
    using that parts by (simp add: biorxiv_author_def)
  have c: "fetch_paper_data_csl w arxiv line = None"
    if "arxiv_result w line = Inr paper" and "name \<in> set (ax_authors paper)"
  proof -
    from collect_authors_raises [of name "ax_authors paper" arxiv_author, OF that(2) a]
    obtain e' where "arxiv_authors (ax_authors paper) = Inl e'"
      by (auto simp: arxiv_authors_def)
    with that(1) show ?thesis
      by (simp add: fetch_paper_data_csl_def fetch_body_def)
  qed
  have d: "make_citation w line
           = \<lparr>csl_data = None, sort_key = [], original_id = line, error = True\<rparr>
         \<and> render_citations w style_name False n [make_citation w line]
           = Inr [show_nat n @ ''. '' @ error_message line]"
    if "classify line = arxiv" and "arxiv_result w line = Inr paper"
      and "name \<in> set (ax_authors paper)"
    using c [OF that(2,3)] that(1) by (simp add: make_citation_def)
  from a b c d show ?thesis by blast
qed

theorem double_space_is_fetch_error_witness:
  "CHR '' '' \<notin> set ''Smith''
   \<and> arxiv_author ''John  Smith'' = Inl IndexError_string
   \<and> biorxiv_author '' John  Smith '' = Inl IndexError_string
   \<and> fetch_paper_data_csl double_space_world arxiv ''2101.00001'' = None
   \<and> generate double_space_world
       \<lparr>ids = ''2101.00001'', style = ''nature'', sortAlphabetically = False\<rparr>
     = Inr [''1. '' @ error_message ''2101.00001'']"
proof -
  have h: "CHR '' '' \<notin> set ''Smith''" by simp
  have s: "strip '' John  Smith '' = ''John  Smith''"
    by (simp add: strip_def rstrip_def is_space_def)
  have cls: "classify ''2101.00001'' = arxiv"
    by (simp add: classify_def str_isdigit_def is_digit_def starts_with_def)
  have res: "arxiv_result double_space_world ''2101.00001'' = Inr double_space_paper"
    by (simp add: double_space_world_def)
  have mem: "''John  Smith'' \<in> set (ax_authors double_space_paper)"
    by (simp add: double_space_paper_def)
  have lines: "collect_citations double_space_world ''2101.00001''
      = [make_citation double_space_world ''2101.00001'']"
    by (simp add: collect_citations_def splitlines_def is_linebreak_def strip_def rstrip_def
        is_space_def)
  note t = double_space_is_fetch_error [OF h, of "''John  Smith''" "''John''"
      "'' John  Smith ''" double_space_world "''2101.00001''" double_space_paper "''nature''" 1]
  show ?thesis
    using t h s cls res mem lines
    by (simp add: generate_def order_citations_def show_nat_digit digit_char_def)
qed

subsection \<open>The second loop of \<open>generate\<close>, entry by entry\<close>

lemma render_citations_nth:
  "render_citations w sty alpha n items = Inr results \<Longrightarrow>
     length results = length items \<and>
     (\<forall>i < length items.
        (error (items ! i) \<longrightarrow>
           results ! i = (if alpha then error_message (original_id (items ! i))
                          else show_nat (n + i) @ ''. '' @ error_message (original_id (items ! i))))
        \<and> (\<not> error (items ! i) \<longrightarrow>
             (\<exists>data. csl_data (items ! i) = Some data
                \<and> process_csl w data sty (if alpha then None else Some (n + i))
                    = Inr (results ! i))))"
proof (induction items arbitrary: n results)
  case Nil
  then show ?case by simp
next
  case (Cons item items)
  let ?n' = "if error item \<and> alpha \<or> \<not> error item \<and> alpha then n else n + 1"
  from Cons.prems obtain r rs where res: "results = r # rs"
    and rest: "render_citations w sty alpha (if alpha then n else n + 1) items = Inr rs"
    and head: "error item \<longrightarrow> r = (if alpha then error_message (original_id item)
                          else show_nat n @ ''. '' @ error_message (original_id item))"
      "\<not> error item \<longrightarrow> (\<exists>data. csl_data item = Some data
                \<and> process_csl w data sty (if alpha then None else Some n) = Inr r)"
    by (auto split: if_splits sum.splits option.splits)
  from Cons.IH [OF rest] have ih: "length rs = length items"
    "\<And>i. i < length items \<Longrightarrow>
        (error (items ! i) \<longrightarrow>
           rs ! i = (if alpha then error_message (original_id (items ! i))
                          else show_nat ((if alpha then n else n + 1) + i) @ ''. ''
                               @ error_message (original_id (items ! i))))
        \<and> (\<not> error (items ! i) \<longrightarrow>
             (\<exists>data. csl_data (items ! i) = Some data
                \<and> process_csl w data sty (if alpha then None else Some ((if alpha then n else n + 1) + i))
                    = Inr (rs ! i)))"
    by auto
  show ?case
  proof (intro conjI allI impI)
    show "length results = length (item # items)" using res ih(1) by simp
  next
    fix i assume i: "i < length (item # items)" and e: "error ((item # items) ! i)"
    show "results ! i = (if alpha then error_message (original_id ((item # items) ! i))
           else show_nat (n + i) @ ''. '' @ error_message (original_id ((item # items) ! i)))"
    proof (cases i)
      case 0
      then show ?thesis using e head(1) res by (auto split: if_splits)
    next
      case (Suc j)
      then show ?thesis using e i ih(2) [of j] res by (auto split: if_splits)
    qed
  next
    fix i assume i: "i < length (item # items)" and e: "\<not> error ((item # items) ! i)"
    show "\<exists>data. csl_data ((item # items) ! i) = Some data
           \<and> process_csl w data sty (if alpha then None else Some (n + i)) = Inr (results ! i)"
    proof (cases i)
      case 0
      then show ?thesis using e head(2) res by (auto split: if_splits)
    next
      case (Suc j)
      then show ?thesis using e i ih(2) [of j] res by (auto split: if_splits)
    qed
  qed
qed

subsection \<open>Ordering\<close>

lemma order_citations_True:
  "order_citations True cd =
     List.sort_key sort_key (filter (\<lambda>c. \<not> error c) cd) @ filter error cd"
  by (simp add: order_citations_def)

lemma make_citation_key:
  "if error (make_citation w line)
   then csl_data (make_citation w line) = None \<and> sort_key (make_citation w line) = []
        \<and> fetch_paper_data_csl w (classify line) line = None
   else (\<exists>data. fetch_paper_data_csl w (classify line) line = Some data
          \<and> csl_data (make_citation w line) = Some data
          \<and> sort_key (make_citation w line)
              = lower (case csl_author data of [] \<Rightarrow> [] | a # _ \<Rightarrow> family a))"
  by (auto simp: make_citation_def split: option.splits)

text \<open>
  C4. With alphabetical ordering requested, the successful entries come out in
  non-decreasing order of their sort key, which is the lowercase family name of the first
  author; entries with equal keys keep their input order; the failed entries keep their
  input order and every one of them comes after every successful entry; no entry is lost
  or repeated; and the rendered strings follow this order.
\<close>

theorem alphabetical_order:
  "sorted (map sort_key (filter (\<lambda>c. \<not> error c) (order_citations True citation_data)))
   \<and> (\<forall>k. filter (\<lambda>c. sort_key c = k) (filter (\<lambda>c. \<not> error c) (order_citations True citation_data))
          = filter (\<lambda>c. sort_key c = k) (filter (\<lambda>c. \<not> error c) citation_data))
   \<and> filter error (order_citations True citation_data) = filter error citation_data
   \<and> (\<forall>i j. i < length (order_citations True citation_data)
          \<and> j < length (order_citations True citation_data)
          \<and> \<not> error (order_citations True citation_data ! i)
          \<and> error (order_citations True citation_data ! j) \<longrightarrow> i < j)
   \<and> mset (order_citations True citation_data) = mset citation_data
   \<and> (\<forall>c \<in> set (collect_citations w input_text). \<not> error c \<longrightarrow>
         (\<exists>data. csl_data c = Some data
            \<and> sort_key c = lower (case csl_author data of [] \<Rightarrow> [] | a # _ \<Rightarrow> family a)))
   \<and> (sortAlphabetically req \<and> generate w req = Inr results \<longrightarrow>
         length results = length (order_citations True (collect_citations w (ids req)))
         \<and> (\<forall>i < length results.
               let item = order_citations True (collect_citations w (ids req)) ! i in
               if error item then results ! i = error_message (original_id item)
               else (\<exists>data. csl_data item = Some data
                       \<and> process_csl w data (style req) None = Inr (results ! i))))"
proof -
  let ?ok = "filter (\<lambda>c. \<not> error c) citation_data"
  let ?bad = "filter error citation_data"
  let ?out = "order_citations True citation_data"
  have out: "?out = List.sort_key sort_key ?ok @ ?bad"
    by (rule order_citations_True)
  have ok_out: "filter (\<lambda>c. \<not> error c) ?out = List.sort_key sort_key ?ok"
    by (simp add: out filter_sort)
  have a: "sorted (map sort_key (filter (\<lambda>c. \<not> error c) ?out))"
    by (simp only: ok_out sorted_sort_key)
  have b: "filter (\<lambda>c. sort_key c = k) (filter (\<lambda>c. \<not> error c) ?out)
          = filter (\<lambda>c. sort_key c = k) ?ok" for k
    by (simp only: ok_out sort_key_stable)
  have c: "filter error ?out = ?bad"
    by (simp add: out filter_sort)
  have d: "i < j" if "i < length ?out" "j < length ?out" "\<not> error (?out ! i)" "error (?out ! j)"
    for i j
  proof -
    have left: "\<not> error x" if "x \<in> set (List.sort_key sort_key ?ok)" for x
      using that by simp
    have right: "error x" if "x \<in> set ?bad" for x
      using that by simp
    have i: "i < length (List.sort_key sort_key ?ok)"
    proof (rule ccontr)
      assume "\<not> i < length (List.sort_key sort_key ?ok)"
      then have eq: "?out ! i = ?bad ! (i - length (List.sort_key sort_key ?ok))"
        and lt: "i - length (List.sort_key sort_key ?ok) < length ?bad"
        using \<open>i < length ?out\<close> unfolding out by (simp_all add: nth_append)
      from nth_mem [OF lt] have "error (?bad ! (i - length (List.sort_key sort_key ?ok)))"
        by (rule right)
      with eq \<open>\<not> error (?out ! i)\<close> show False by simp
    qed
    have j: "\<not> j < length (List.sort_key sort_key ?ok)"
    proof
      assume "j < length (List.sort_key sort_key ?ok)"
      then have eq: "?out ! j = List.sort_key sort_key ?ok ! j"
        unfolding out by (simp add: nth_append)
      from nth_mem [OF \<open>j < length (List.sort_key sort_key ?ok)\<close>]
      have "\<not> error (List.sort_key sort_key ?ok ! j)"
        by (rule left)
      with eq \<open>error (?out ! j)\<close> show False by simp
    qed
    from i j show ?thesis by simp
  qed
  have e: "mset ?out = mset citation_data"
    by (simp add: out)
  have f: "\<exists>data. csl_data c = Some data
            \<and> sort_key c = lower (case csl_author data of [] \<Rightarrow> [] | a # _ \<Rightarrow> family a)"
    if "c \<in> set (collect_citations w input_text)" "\<not> error c" for c
  proof -
    from that(1) obtain line where "c = make_citation w line"
      by (auto simp: collect_citations_def)
    with that(2) make_citation_key [of w line] show ?thesis by auto
  qed
  have g: "length results = length (order_citations True (collect_citations w (ids req)))
         \<and> (\<forall>i < length results.
               let item = order_citations True (collect_citations w (ids req)) ! i in
               if error item then results ! i = error_message (original_id item)
               else (\<exists>data. csl_data item = Some data
                       \<and> process_csl w data (style req) None = Inr (results ! i)))"
    if "sortAlphabetically req" "generate w req = Inr results"
  proof -
    from that have "render_citations w (style req) True 1
        (order_citations True (collect_citations w (ids req))) = Inr results"
      by (simp add: generate_def)
    from render_citations_nth [OF this] show ?thesis
      by (simp add: Let_def)
  qed
  from a b c d e f g show ?thesis by blast
qed


lemma sample_citations:
  "collect_citations sample_world sample_ids =
     [\<lparr>csl_data = Some \<lparr>csl_id = ''11'', csl_type = ''article-journal'',
         csl_title = Some ''T'', csl_container_title = Some ''J'',
         csl_volume = None, csl_issue = None, csl_page = None,
         csl_author =
           [\<lparr>family = ''Zhang'', given = ''W.'', non_dropping_particle = None\<rparr>,
            \<lparr>family = ''Li'', given = ''Q.'', non_dropping_particle = None\<rparr>],
         csl_issued = [2020], csl_URL = None\<rparr>,
       sort_key = ''zhang'', original_id = ''11'', error = False\<rparr>,
      \<lparr>csl_data = None, sort_key = [], original_id = ''x'', error = True\<rparr>,
      \<lparr>csl_data = Some \<lparr>csl_id = ''22'', csl_type = ''article-journal'',
         csl_title = Some ''T'', csl_container_title = Some ''J'',
         csl_volume = None, csl_issue = None, csl_page = None,
         csl_author =
           [\<lparr>family = ''Adams'', given = ''J. B.'', non_dropping_particle = None\<rparr>],
         csl_issued = [2020], csl_URL = None\<rparr>,
       sort_key = ''adams'', original_id = ''22'', error = False\<rparr>]"
  by (simp add: collect_citations_def sample_ids_def splitlines_def is_linebreak_def
      strip_def rstrip_def make_citation_def classify_def str_isdigit_def
      fetch_paper_data_csl_def fetch_body_def sample_world_def sample_article_def
      pubmed_authors_def pubmed_author_def List.map_filter_def split_on_def given_after_def
      process_given_name_def split_ws_def initials_def lower_def lower_char_def
      starts_with_def char_class_defs)



lemma sample_generate_alpha:
  "generate sample_world \<lparr>ids = sample_ids, style = ''nature'', sortAlphabetically = True\<rparr>
     = Inr [''Adams T'', ''Zhang T <i>et al.</i>'', error_message ''x'']"
  by code_simp

lemma sample_generate_seq:
  "generate sample_world \<lparr>ids = sample_ids, style = ''nature'', sortAlphabetically = False\<rparr>
     = Inr [''1.&nbsp;&nbsp;&nbsp;&nbsp;Zhang T <i>et al.</i>'', ''2. '' @ error_message ''x'',
            ''3.&nbsp;&nbsp;&nbsp;&nbsp;Adams T'']"
  by code_simp


theorem alphabetical_order_witness:
  "map original_id (order_citations True (collect_citations sample_world sample_ids))
     = [''22'', ''11'', ''x'']
   \<and> map error (order_citations True (collect_citations sample_world sample_ids))
     = [False, False, True]
   \<and> sorted (map sort_key
       (filter (\<lambda>c. \<not> error c) (order_citations True (collect_citations sample_world sample_ids))))
   \<and> map sort_key (order_citations True (collect_citations sample_world sample_ids))
     = [''adams'', ''zhang'', []]
   \<and> generate sample_world \<lparr>ids = sample_ids, style = ''nature'', sortAlphabetically = True\<rparr>
     = Inr [''Adams T'', ''Zhang T <i>et al.</i>'', error_message ''x'']"
proof -
  note t = alphabetical_order [of "collect_citations sample_world sample_ids" sample_world
      sample_ids "\<lparr>ids = sample_ids, style = ''nature'', sortAlphabetically = True\<rparr>"
      "[''Adams T'', ''Zhang T <i>et al.</i>'', error_message ''x'']"]
  have ids: "map original_id (order_citations True (collect_citations sample_world sample_ids))
     = [''22'', ''11'', ''x'']"
    by code_simp
  have errs: "map error (order_citations True (collect_citations sample_world sample_ids))
     = [False, False, True]"
    by code_simp
  have keys: "map sort_key (order_citations True (collect_citations sample_world sample_ids))
     = [''adams'', ''zhang'', []]"
    by code_simp
  from t have "sorted (map sort_key
       (filter (\<lambda>c. \<not> error c) (order_citations True (collect_citations sample_world sample_ids))))"
    by (rule conjunct1)
  with ids errs keys sample_generate_alpha show ?thesis by simp
qed

subsection \<open>Failed entries\<close>

lemma original_id_make_citation: "original_id (make_citation w line) = line"
  by (simp add: make_citation_def split: option.splits)

lemma set_order_citations: "set (order_citations alpha cd) = set cd"
  by (auto simp: order_citations_def)

lemma collected_error:
  assumes "c \<in> set (order_citations alpha (collect_citations w input_text))" and "error c"
  shows "fetch_paper_data_csl w (classify (original_id c)) (original_id c) = None"
proof -
  from assms(1) obtain line where c: "c = make_citation w line"
    by (auto simp: set_order_citations collect_citations_def)
  with assms(2) make_citation_key [of w line] show ?thesis
    by (simp add: original_id_make_citation)
qed

text \<open>
  C9, as the specification states it: a failed entry is rendered in sequential mode as
  \<open><i>N.</i> Not Found or Fetch Error: id\<close>, the number in italics. The code refutes it:
  the number is written plainly, followed by a period, a space and the red span, and no
  italic markup occurs in the string.
\<close>

theorem failed_entry_counterexample:
  "generate sample_world \<lparr>ids = ''x'', style = ''nature'', sortAlphabetically = False\<rparr>
     = Inr [''1. <span style='' @ [CHR 0x27] @ ''color:red'' @ [CHR 0x27]
            @ ''>Not Found or Fetch Error: x</span>'']
   \<and> \<not> contains ''<i>''
        (''1. <span style='' @ [CHR 0x27] @ ''color:red'' @ [CHR 0x27]
            @ ''>Not Found or Fetch Error: x</span>'')"
  by code_simp

text \<open>
  C9, amended: an entry whose fetch returned no record is rendered, in sequential mode,
  as its display number in plain digits, a period, a space and the red span around
  \<open>Not Found or Fetch Error: id\<close>; in alphabetical mode as the red span alone. In
  sequential mode the display number is the position of the entry in the output, counted
  from 1, for failed and successful entries alike: a successful entry at position \<open>i + 1\<close>
  is post-processed with that number.
\<close>

theorem failed_entries_rendering:
  "generate w req = Inr results \<longrightarrow>
     length results
       = length (order_citations (sortAlphabetically req) (collect_citations w (ids req)))
     \<and> (\<forall>i < length results.
           let item = order_citations (sortAlphabetically req) (collect_citations w (ids req)) ! i
           in error item \<longrightarrow>
                fetch_paper_data_csl w (classify (original_id item)) (original_id item) = None
                \<and> results ! i =
                    (if sortAlphabetically req then error_message (original_id item)
                     else show_nat (i + 1) @ ''. '' @ error_message (original_id item)))
     \<and> (\<forall>i < length results.
           let item = order_citations (sortAlphabetically req) (collect_citations w (ids req)) ! i
           in \<not> sortAlphabetically req \<and> \<not> error item \<longrightarrow>
                (\<exists>data. csl_data item = Some data
                   \<and> process_csl w data (style req) (Some (i + 1)) = Inr (results ! i)))"
proof
  let ?items = "order_citations (sortAlphabetically req) (collect_citations w (ids req))"
  assume "generate w req = Inr results"
  then have "render_citations w (style req) (sortAlphabetically req) 1 ?items = Inr results"
    by (simp add: generate_def)
  note nth = render_citations_nth [OF this]
  from nth have len: "length results = length ?items" by simp
  have fetch: "fetch_paper_data_csl w (classify (original_id (?items ! i)))
      (original_id (?items ! i)) = None" if "i < length results" "error (?items ! i)" for i
    using collected_error [OF nth_mem that(2)] that(1) len by simp
  show "length results = length ?items
     \<and> (\<forall>i < length results.
           let item = ?items ! i
           in error item \<longrightarrow>
                fetch_paper_data_csl w (classify (original_id item)) (original_id item) = None
                \<and> results ! i =
                    (if sortAlphabetically req then error_message (original_id item)
                     else show_nat (i + 1) @ ''. '' @ error_message (original_id item)))
     \<and> (\<forall>i < length results.
           let item = ?items ! i
           in \<not> sortAlphabetically req \<and> \<not> error item \<longrightarrow>
                (\<exists>data. csl_data item = Some data
                   \<and> process_csl w data (style req) (Some (i + 1)) = Inr (results ! i)))"
    using nth fetch by (auto simp: Let_def add.commute)
qed

theorem failed_entries_rendering_witness:
  "generate sample_world \<lparr>ids = sample_ids, style = ''nature'', sortAlphabetically = False\<rparr>
     = Inr [''1.&nbsp;&nbsp;&nbsp;&nbsp;Zhang T <i>et al.</i>'', ''2. '' @ error_message ''x'',
            ''3.&nbsp;&nbsp;&nbsp;&nbsp;Adams T'']
   \<and> error (collect_citations sample_world sample_ids ! 1)
   \<and> original_id (collect_citations sample_world sample_ids ! 1) = ''x''
   \<and> fetch_paper_data_csl sample_world (classify ''x'') ''x'' = None
   \<and> [''1.&nbsp;&nbsp;&nbsp;&nbsp;Zhang T <i>et al.</i>'', ''2. '' @ error_message ''x'',
            ''3.&nbsp;&nbsp;&nbsp;&nbsp;Adams T''] ! 1 = ''2. '' @ error_message ''x''"
proof -
  note t = failed_entries_rendering [of sample_world
      "\<lparr>ids = sample_ids, style = ''nature'', sortAlphabetically = False\<rparr>"
      "[''1.&nbsp;&nbsp;&nbsp;&nbsp;Zhang T <i>et al.</i>'', ''2. '' @ error_message ''x'',
            ''3.&nbsp;&nbsp;&nbsp;&nbsp;Adams T'']"]
  have e: "error (collect_citations sample_world sample_ids ! 1)"
    and o: "original_id (collect_citations sample_world sample_ids ! 1) = ''x''"
    by code_simp+
  from t [rule_format] sample_generate_seq
  have "\<forall>i < 3. let item = collect_citations sample_world sample_ids ! i
           in error item \<longrightarrow>
                fetch_paper_data_csl sample_world (classify (original_id item)) (original_id item) = None
                \<and> [''1.&nbsp;&nbsp;&nbsp;&nbsp;Zhang T <i>et al.</i>'', ''2. '' @ error_message ''x'',
            ''3.&nbsp;&nbsp;&nbsp;&nbsp;Adams T''] ! i =
                    show_nat (i + 1) @ ''. '' @ error_message (original_id item)"
    by (simp add: order_citations_def)
  from this [THEN spec, of 1]
  have "let item = collect_citations sample_world sample_ids ! 1
           in error item \<longrightarrow>
                fetch_paper_data_csl sample_world (classify (original_id item)) (original_id item) = None
                \<and> [''1.&nbsp;&nbsp;&nbsp;&nbsp;Zhang T <i>et al.</i>'', ''2. '' @ error_message ''x'',
            ''3.&nbsp;&nbsp;&nbsp;&nbsp;Adams T''] ! 1 =
                    show_nat (1 + 1) @ ''. '' @ error_message (original_id item)"
    by simp
  with e o sample_generate_seq show ?thesis
    by (simp add: Let_def)
qed

subsection \<open>Exceptions during rendering and post-processing\<close>

text \<open>Where every trace write succeeds, \<open>process_csl\<close> returns a string whatever the
  renderer does, and an exception of the renderer becomes the error string of the entry.\<close>

lemma process_csl_catches:
  assumes "\<And>path. write_trace w path = None"
  shows "\<exists>html. process_csl w data style_name citation_number = Inr html"
    and "get_csl_path w style_name = Some csl_path \<Longrightarrow> citeproc_html w csl_path data = Inl e \<Longrightarrow>
      process_csl w data style_name citation_number
        = Inr (''CSL Formatting Error for '' @ csl_id data @ '': '' @ exc_text e)"
  using assms
  by (auto simp: process_csl_def process_csl_body_def Let_def split: option.splits sum.splits)

text \<open>
  C8 says that an exception raised while one entry is rendered or post-processed becomes
  the error string of that entry and never ends the batch. The \<open>except\<close> clause of
  \<open>process_csl\<close> writes the error log before it returns that string, and nothing catches
  an exception of this write. Evaluated on the code, in a world whose trace directory has
  no subdirectory: the article \<open>11\<close> alone is rendered; the bioRxiv identifier
  \<open>10.1101/2020.01.01.123456\<close> is fetched, its trace path lies in the missing directory
  \<open>csl_debug_output/10.1101\<close>, the first trace write raises inside the \<open>try\<close> block, the
  write of the error log raises inside the \<open>except\<close> clause, and the request for both
  identifiers ends with that exception instead of a list of entries.
\<close>

theorem trace_failure_aborts_request:
  "generate flat_trace_world
     \<lparr>ids = ''11'', style = ''nature'', sortAlphabetically = False\<rparr>
     = Inr [''1.&nbsp;&nbsp;&nbsp;&nbsp;Zhang T <i>et al.</i>'']
   \<and> fetch_paper_data_csl flat_trace_world biorxiv ''10.1101/2020.01.01.123456'' \<noteq> None
   \<and> generate flat_trace_world
     \<lparr>ids = ''11'' @ [CHR 0x0A] @ ''10.1101/2020.01.01.123456'', style = ''nature'',
      sortAlphabetically = False\<rparr>
     = Inl (FileNotFoundError
             ''csl_debug_output/10.1101/2020.01.01.123456_nature_error.log'')"
  by code_simp

subsection \<open>Punctuation cleanup\<close>

lemma contains_Cons: "contains p (c # cs) = (starts_with p (c # cs) \<or> contains p cs)"
  by simp

lemma contains_drop: "\<not> contains p s \<Longrightarrow> \<not> contains p (drop n s)"
proof (induction s arbitrary: n)
  case Nil
  then show ?case by simp
next
  case (Cons c cs)
  then show ?case by (cases n) auto
qed

lemma starts_dots_Cons:
  "starts_with ''..'' (c # cs) \<longleftrightarrow> c = CHR ''.'' \<and> starts_with ''.'' cs"
  by (cases cs) (auto simp: starts_with_def)

lemma starts_dot_iff: "starts_with ''.'' s \<longleftrightarrow> (\<exists>t. s = CHR ''.'' # t)"
  by (cases s) (auto simp: starts_with_def)

text \<open>A substitution whose matches start with a period and are replaced by one period
  keeps the first character of the text.\<close>

lemma re_sub_dot_head:
  assumes "\<And>p s n. m p s = Some (Suc n) \<Longrightarrow> starts_with ''.'' s"
  shows "starts_with ''.'' (re_sub m (\<lambda>mt. ''.'') prev s) \<longleftrightarrow> starts_with ''.'' s"
proof (cases s)
  case Nil
  then show ?thesis by simp
next
  case (Cons c cs)
  show ?thesis
  proof (cases "m prev (c # cs)")
    case None
    then show ?thesis using Cons by (simp add: starts_with_def)
  next
    case (Some k)
    show ?thesis
    proof (cases k)
      case 0
      then show ?thesis using Cons Some by (simp add: starts_with_def)
    next
      case (Suc n)
      with Some assms have "starts_with ''.'' (c # cs)" by blast
      then show ?thesis using Cons Some Suc by (simp add: starts_with_def)
    qed
  qed
qed

lemma pat_dots_head: "pat_dots p s = Some (Suc n) \<Longrightarrow> starts_with ''.'' s"
  by (cases s) (auto simp: pat_dots_def starts_with_def split: if_splits)

lemma pat_dot_space_dot_head: "pat_dot_space_dot p s = Some (Suc n) \<Longrightarrow> starts_with ''.'' s"
  by (auto simp: pat_dot_space_dot_def Let_def split: if_splits)

lemma dots_head:
  "starts_with ''.'' (re_sub pat_dots (\<lambda>mt. ''.'') prev s) \<longleftrightarrow> starts_with ''.'' s"
  by (rule re_sub_dot_head) (rule pat_dots_head)

lemma dot_space_dot_head:
  "starts_with ''.'' (re_sub pat_dot_space_dot (\<lambda>mt. ''.'') prev s) \<longleftrightarrow> starts_with ''.'' s"
  by (rule re_sub_dot_head) (rule pat_dot_space_dot_head)

lemma no_dots_after_collapse:
  "\<not> contains ''..'' (re_sub pat_dots (\<lambda>mt. ''.'') prev s)"
proof (induction "length s" arbitrary: s prev rule: less_induct)
  case less
  show ?case
  proof (cases s)
    case Nil
    then show ?thesis by (simp add: starts_with_def)
  next
    case (Cons c cs)
    show ?thesis
    proof (cases "starts_with ''..'' (c # cs)")
      case True
      define k where "k = length (takeWhile (\<lambda>c. c = CHR ''.'') (c # cs))"
      from True have c: "c = CHR ''.''" by (simp add: starts_dots_Cons)
      then obtain n where k: "k = Suc n" by (simp add: k_def)
      let ?rest = "drop n cs"
      have rest: "?rest = dropWhile (\<lambda>c. c = CHR ''.'') (c # cs)"
        using k unfolding k_def by (metis dropWhile_eq_drop drop_Suc_Cons)
      have nodot: "\<not> starts_with ''.'' ?rest"
        unfolding rest starts_dot_iff
        by (metis (mono_tags, lifting) hd_dropWhile list.sel(1) list.simps(3))
      have len: "length ?rest < length s" using Cons by simp
      have m: "pat_dots prev (c # cs) = Some (Suc n)"
        using True k by (simp add: pat_dots_def k_def)
      have res: "re_sub pat_dots (\<lambda>mt. ''.'') prev s
          = CHR ''.'' # re_sub pat_dots (\<lambda>mt. ''.'') (Some ((c # cs) ! n)) ?rest"
        using Cons m by simp
      have "\<not> starts_with ''.'' (re_sub pat_dots (\<lambda>mt. ''.'') (Some ((c # cs) ! n)) ?rest)"
        using nodot dots_head by blast
      with less [OF len] show ?thesis
        unfolding res by (simp add: starts_dots_Cons)
    next
      case False
      then have m: "pat_dots prev (c # cs) = None" by (simp add: pat_dots_def)
      have res: "re_sub pat_dots (\<lambda>mt. ''.'') prev s
          = c # re_sub pat_dots (\<lambda>mt. ''.'') (Some c) cs"
        using Cons m by simp
      have "\<not> (c = CHR ''.'' \<and> starts_with ''.'' (re_sub pat_dots (\<lambda>mt. ''.'') (Some c) cs))"
        using False dots_head
        by (simp add: starts_dots_Cons)
      moreover have "\<not> contains ''..'' (re_sub pat_dots (\<lambda>mt. ''.'') (Some c) cs)"
        using less [of cs] Cons by simp
      ultimately show ?thesis
        unfolding res by (simp add: starts_dots_Cons)
    qed
  qed
qed

lemma contains_append_right: "contains p b \<Longrightarrow> contains p (a @ b)"
  by (induction a) auto

lemma no_dots_preserved:
  "\<not> contains ''..'' s \<Longrightarrow> \<not> contains ''..'' (re_sub pat_dot_space_dot (\<lambda>mt. ''.'') prev s)"
proof (induction "length s" arbitrary: s prev rule: less_induct)
  case less
  show ?case
  proof (cases s)
    case Nil
    then show ?thesis by (simp add: starts_with_def)
  next
    case (Cons c cs)
    show ?thesis
    proof (cases "pat_dot_space_dot prev (c # cs)")
      case None
      have res: "re_sub pat_dot_space_dot (\<lambda>mt. ''.'') prev s
          = c # re_sub pat_dot_space_dot (\<lambda>mt. ''.'') (Some c) cs"
        using Cons None by simp
      from less.prems Cons have a: "\<not> (c = CHR ''.'' \<and> starts_with ''.'' cs)"
        and b: "\<not> contains ''..'' cs"
        by (simp_all add: starts_dots_Cons)
      from a have "\<not> (c = CHR ''.''
          \<and> starts_with ''.'' (re_sub pat_dot_space_dot (\<lambda>mt. ''.'') (Some c) cs))"
        using dot_space_dot_head by blast
      moreover have "\<not> contains ''..'' (re_sub pat_dot_space_dot (\<lambda>mt. ''.'') (Some c) cs)"
        using less.hyps [of cs] b Cons by simp
      ultimately show ?thesis
        unfolding res by (simp add: starts_dots_Cons)
    next
      case (Some k)
      define w where "w = spaces_len cs"
      from Some have c: "c = CHR ''.''" and w: "w > 0"
        and dot: "starts_with ''.'' (drop w cs)" and k: "k = Suc (Suc w)"
        by (auto simp: pat_dot_space_dot_def Let_def w_def starts_with_def split: if_splits)
      let ?rest = "drop (Suc w) cs"
      from dot obtain t where t: "drop w cs = CHR ''.'' # t"
        by (auto simp: starts_dot_iff)
      then have rest: "?rest = t"
        by (metis drop_Suc list.sel(3) tl_drop)
      have "\<not> contains ''..'' (drop w cs)"
        using less.prems Cons contains_drop [of "''..''" s "Suc w"] by simp
      with t rest have nodot: "\<not> starts_with ''.'' ?rest" and nod: "\<not> contains ''..'' ?rest"
        by (simp_all add: starts_dots_Cons)
      have len: "length ?rest < length s" using Cons by simp
      have res: "re_sub pat_dot_space_dot (\<lambda>mt. ''.'') prev s
          = CHR ''.'' # re_sub pat_dot_space_dot (\<lambda>mt. ''.'') (Some ((c # cs) ! Suc w)) ?rest"
        using Cons Some k by simp
      have "\<not> starts_with ''.''
          (re_sub pat_dot_space_dot (\<lambda>mt. ''.'') (Some ((c # cs) ! Suc w)) ?rest)"
        using nodot dot_space_dot_head by blast
      with less.hyps [OF len nod] show ?thesis
        unfolding res by (simp add: starts_dots_Cons)
    qed
  qed
qed

lemma collapse_dots_fixed: "\<not> contains ''..'' s \<Longrightarrow> re_sub pat_dots r prev s = s"
proof (induction s arbitrary: prev)
  case Nil
  then show ?case by simp
next
  case (Cons c cs)
  then have "pat_dots prev (c # cs) = None" by (simp add: pat_dots_def)
  with Cons show ?case by simp
qed

lemma re_sub_no_match: "match_spans m prev pos s = [] \<Longrightarrow> re_sub m r prev s = s"
proof (induction s arbitrary: prev pos)
  case Nil
  then show ?case by simp
next
  case (Cons c cs)
  then show ?case
    by (auto split: option.splits nat.splits)
qed

lemma length_re_sub_dot:
  assumes "\<And>p s n. m p s = Some (Suc n) \<Longrightarrow> Suc n \<le> length s"
  shows "length (re_sub m (\<lambda>mt. ''.'') prev s) \<le> length s"
proof (induction "length s" arbitrary: s prev rule: less_induct)
  case less
  show ?case
  proof (cases s)
    case Nil
    then show ?thesis by simp
  next
    case (Cons c cs)
    show ?thesis
    proof (cases "m prev (c # cs)")
      case None
      then show ?thesis using Cons less [of cs] by simp
    next
      case (Some k)
      show ?thesis
      proof (cases k)
        case 0
        then show ?thesis using Some Cons less [of cs] by simp
      next
        case (Suc n)
        with Some assms have "Suc n \<le> length (c # cs)" by blast
        moreover have "length (re_sub m (\<lambda>mt. ''.'') (Some ((c # cs) ! n)) (drop n cs))
            \<le> length (drop n cs)"
          using less [of "drop n cs"] Cons by simp
        ultimately show ?thesis using Some Suc Cons by simp
      qed
    qed
  qed
qed

lemma pat_dot_space_dot_len:
  "pat_dot_space_dot p s = Some (Suc n) \<Longrightarrow> Suc n \<le> length s \<and> 2 \<le> n"
proof -
  assume a: "pat_dot_space_dot p s = Some (Suc n)"
  then obtain cs where s: "s = CHR ''.'' # cs"
    by (auto simp: pat_dot_space_dot_def starts_dot_iff split: if_splits)
  from a s have w: "spaces_len cs > 0" and d: "starts_with ''.'' (drop (spaces_len cs) cs)"
    and n: "n = Suc (spaces_len cs)"
    by (auto simp: pat_dot_space_dot_def Let_def split: if_splits)
  from d have "drop (spaces_len cs) cs \<noteq> []"
    by (auto simp: starts_with_def)
  then have "spaces_len cs < length cs"
    by simp
  with w n s show ?thesis by simp
qed

lemma re_sub_match_shrinks:
  "match_spans pat_dot_space_dot prev pos s \<noteq> [] \<Longrightarrow>
     length (re_sub pat_dot_space_dot (\<lambda>mt. ''.'') prev s) < length s"
proof (induction s arbitrary: prev pos)
  case Nil
  then show ?case by simp
next
  case (Cons c cs)
  show ?case
  proof (cases "pat_dot_space_dot prev (c # cs)")
    case None
    with Cons show ?thesis by simp
  next
    case (Some k)
    show ?thesis
    proof (cases k)
      case 0
      with Some Cons show ?thesis by simp
    next
      case (Suc n)
      from pat_dot_space_dot_len [of prev "c # cs" n] Some Suc
      have n: "Suc n \<le> length (c # cs)" "2 \<le> n" by simp_all
      have "length (re_sub pat_dot_space_dot (\<lambda>mt. ''.'') (Some ((c # cs) ! n)) (drop n cs))
            \<le> length (drop n cs)"
        by (rule length_re_sub_dot) (simp add: pat_dot_space_dot_len)
      with n Some Suc show ?thesis by simp
    qed
  qed
qed

text \<open>
  C6, as the specification states it: applying the punctuation cleanup twice gives the
  same string as applying it once. The code refutes it: on three periods separated by
  single spaces the second substitution joins the first two periods and resumes after
  them, so one pass leaves \<open>. .\<close>, and the next pass turns that into a single period.
\<close>

theorem cleanup_not_idempotent:
  "punctuation_cleanup ''. . .'' = ''. .''
   \<and> punctuation_cleanup (punctuation_cleanup ''. . .'') = ''.''
   \<and> punctuation_cleanup (punctuation_cleanup ''. . .'') \<noteq> punctuation_cleanup ''. . .''"
  by code_simp

text \<open>
  C6, amended: the cleaned string never contains two consecutive periods; collapsing the
  runs of periods (the first substitution) is idempotent; and applying the whole cleanup
  to a cleaned string changes nothing exactly when the cleaned string contains no
  period, white space, period sequence any more.
\<close>

theorem cleanup_idempotent_when_settled:
  "\<not> contains ''..'' (punctuation_cleanup s)
   \<and> collapse_dots (collapse_dots s) = collapse_dots s
   \<and> (punctuation_cleanup (punctuation_cleanup s) = punctuation_cleanup s
        \<longleftrightarrow> finditer pat_dot_space_dot (punctuation_cleanup s) = [])"
proof -
  let ?u = "punctuation_cleanup s"
  have a: "\<not> contains ''..'' ?u"
    unfolding punctuation_cleanup_def collapse_dot_space_dot_def collapse_dots_def
    by (rule no_dots_preserved) (rule no_dots_after_collapse)
  have b: "collapse_dots (collapse_dots s) = collapse_dots s"
    unfolding collapse_dots_def
    by (rule collapse_dots_fixed) (rule no_dots_after_collapse)
  have fixd: "collapse_dots ?u = ?u"
    unfolding collapse_dots_def using a by (rule collapse_dots_fixed)
  have c1: "punctuation_cleanup ?u = ?u" if "finditer pat_dot_space_dot ?u = []"
  proof -
    from that have "collapse_dot_space_dot ?u = ?u"
      unfolding collapse_dot_space_dot_def finditer_def by (rule re_sub_no_match)
    then show ?thesis
      using fixd by (simp add: punctuation_cleanup_def [of ?u])
  qed
  have c2: "punctuation_cleanup ?u \<noteq> ?u" if "finditer pat_dot_space_dot ?u \<noteq> []"
  proof -
    from that have "length (collapse_dot_space_dot ?u) < length ?u"
      unfolding collapse_dot_space_dot_def finditer_def by (rule re_sub_match_shrinks)
    then have "length (punctuation_cleanup ?u) < length ?u"
      using fixd by (simp add: punctuation_cleanup_def [of ?u])
    then show ?thesis by auto
  qed
  from a b c1 c2 show ?thesis by blast
qed

theorem cleanup_idempotent_when_settled_witness:
  "punctuation_cleanup ''a.. .b'' = ''a.b''
   \<and> finditer pat_dot_space_dot (punctuation_cleanup ''a.. .b'') = []
   \<and> punctuation_cleanup (punctuation_cleanup ''a.. .b'') = punctuation_cleanup ''a.. .b''"
proof -
  have e: "punctuation_cleanup ''a.. .b'' = ''a.b''" by code_simp
  have f: "finditer pat_dot_space_dot (punctuation_cleanup ''a.. .b'') = []" by code_simp
  from cleanup_idempotent_when_settled [of "''a.. .b''"] e f show ?thesis by simp
qed

subsection \<open>Numbering\<close>












subsection \<open>Where the patterns of the numbering step cannot match\<close>






































subsection \<open>The \<open>et al.\<close> step\<close>

lemma starts_with_Nil [simp]: "starts_with [] s"
  by (simp add: starts_with_def)






























subsection \<open>Further properties of the parser and of the error handling\<close>

text \<open>
  A name that consists of one token (no space) gives the entry with that token as the
  family name and an empty given name, in all three branches; the biorxiv branch strips
  the segment first, the pubmed branch skips the empty name.
\<close>

theorem single_token_name:
  "CHR '' '' \<notin> set name \<longrightarrow>
     arxiv_author name = Inr (Some \<lparr>family = name, given = [], non_dropping_particle = None\<rparr>)
     \<and> (strip auth = name \<longrightarrow>
          biorxiv_author auth
            = Inr (Some \<lparr>family = name, given = [], non_dropping_particle = None\<rparr>))
     \<and> (name \<noteq> [] \<longrightarrow>
          pubmed_author name = Some \<lparr>family = name, given = [], non_dropping_particle = None\<rparr>)"
proof
  assume "CHR '' '' \<notin> set name"
  then have parts: "split_on CHR '' '' name = [name]"
    by (simp add: split_on_def split_on_from_no_sep)
  then show "arxiv_author name = Inr (Some \<lparr>family = name, given = [], non_dropping_particle = None\<rparr>)
     \<and> (strip auth = name \<longrightarrow>
          biorxiv_author auth
            = Inr (Some \<lparr>family = name, given = [], non_dropping_particle = None\<rparr>))
     \<and> (name \<noteq> [] \<longrightarrow>
          pubmed_author name = Some \<lparr>family = name, given = [], non_dropping_particle = None\<rparr>)"
    by (simp add: arxiv_author_def biorxiv_author_def pubmed_author_def particle_author_def)
qed

theorem single_token_name_witness:
  "CHR '' '' \<notin> set ''Plato''
   \<and> arxiv_author ''Plato''
      = Inr (Some \<lparr>family = ''Plato'', given = [], non_dropping_particle = None\<rparr>)
   \<and> strip '' Plato '' = ''Plato''
   \<and> biorxiv_author '' Plato ''
      = Inr (Some \<lparr>family = ''Plato'', given = [], non_dropping_particle = None\<rparr>)
   \<and> pubmed_author ''Plato''
      = Some \<lparr>family = ''Plato'', given = [], non_dropping_particle = None\<rparr>"
proof -
  have s: "strip '' Plato '' = ''Plato''"
    by (simp add: strip_def rstrip_def is_space_def)
  from single_token_name [of "''Plato''" "'' Plato ''"] s show ?thesis by simp
qed

lemma render_citations_total:
  assumes "\<And>path. write_trace w path = None"
    and "\<forall>c \<in> set items. \<not> error c \<longrightarrow> csl_data c \<noteq> None"
  shows "\<exists>results. render_citations w sty alpha n items = Inr results"
  using assms(2)
proof (induction items arbitrary: n)
  case Nil
  then show ?case by simp
next
  case (Cons item items)
  from Cons.prems have rest: "\<forall>c \<in> set items. \<not> error c \<longrightarrow> csl_data c \<noteq> None" by simp
  from Cons.IH [OF rest] obtain r1 r2 where
    r: "render_citations w sty alpha n items = Inr r1"
       "render_citations w sty alpha (n + 1) items = Inr r2" by blast
  show ?case
  proof (cases "error item")
    case True
    with r show ?thesis by auto
  next
    case False
    with Cons.prems obtain data where d: "csl_data item = Some data" by auto
    from process_csl_catches(1) [OF assms(1), of data sty None]
      process_csl_catches(1) [OF assms(1), of data sty "Some n"]
    obtain h1 h2 where "process_csl w data sty None = Inr h1"
      "process_csl w data sty (Some n) = Inr h2" by blast
    with False d r show ?thesis by auto
  qed
qed

lemma length_order_citations: "length (order_citations alpha cd) = length cd"
proof (cases alpha)
  case True
  have "length (filter (\<lambda>c. \<not> error c) cd) + length (filter error cd) = length cd"
    using sum_length_filter_compl [of error cd] by simp
  with True show ?thesis by (simp add: order_citations_def)
next
  case False
  then show ?thesis by (simp add: order_citations_def)
qed

text \<open>
  Where every write to the debug trace succeeds, an exception of the renderer becomes the
  string \<open>CSL Formatting Error for id: message\<close> of its entry, and \<open>generate\<close> returns one
  string for every non-blank line of the request.
\<close>

theorem rendering_exception_is_caught:
  "(\<forall>path. write_trace w path = None) \<longrightarrow>
     (get_csl_path w style_name = Some csl_path \<and> citeproc_html w csl_path data = Inl e \<longrightarrow>
        process_csl w data style_name citation_number
          = Inr (''CSL Formatting Error for '' @ csl_id data @ '': '' @ exc_text e))
     \<and> (\<exists>results. generate w req = Inr results
          \<and> length results
              = length (filter (\<lambda>line. line \<noteq> []) (map strip (splitlines (ids req)))))"
proof
  assume tr: "\<forall>path. write_trace w path = None"
  let ?items = "order_citations (sortAlphabetically req) (collect_citations w (ids req))"
  have a: "process_csl w data style_name citation_number
          = Inr (''CSL Formatting Error for '' @ csl_id data @ '': '' @ exc_text e)"
    if "get_csl_path w style_name = Some csl_path" "citeproc_html w csl_path data = Inl e"
    using process_csl_catches(2) [of w style_name csl_path data e citation_number] tr that
    by simp
  have ok: "\<forall>c \<in> set ?items. \<not> error c \<longrightarrow> csl_data c \<noteq> None"
  proof (intro ballI impI)
    fix c assume "c \<in> set ?items" and ne: "\<not> error c"
    then obtain line where "c = make_citation w line"
      by (auto simp: set_order_citations collect_citations_def)
    with ne make_citation_key [of w line] show "csl_data c \<noteq> None" by auto
  qed
  from render_citations_total [of w ?items "style req" "sortAlphabetically req" 1] tr ok
  obtain results where r: "generate w req = Inr results"
    by (auto simp: generate_def)
  then have "render_citations w (style req) (sortAlphabetically req) 1 ?items = Inr results"
    by (simp add: generate_def)
  from render_citations_nth [OF this] have "length results = length ?items" by simp
  also have "\<dots> = length (collect_citations w (ids req))"
    by (rule length_order_citations)
  also have "\<dots> = length (filter (\<lambda>line. line \<noteq> []) (map strip (splitlines (ids req))))"
    by (simp add: collect_citations_def)
  finally have "length results
      = length (filter (\<lambda>line. line \<noteq> []) (map strip (splitlines (ids req))))" .
  with a r show "(get_csl_path w style_name = Some csl_path \<and> citeproc_html w csl_path data = Inl e \<longrightarrow>
        process_csl w data style_name citation_number
          = Inr (''CSL Formatting Error for '' @ csl_id data @ '': '' @ exc_text e))
     \<and> (\<exists>results. generate w req = Inr results
          \<and> length results
              = length (filter (\<lambda>line. line \<noteq> []) (map strip (splitlines (ids req)))))"
    by blast
qed

theorem rendering_exception_is_caught_witness:
  "(\<forall>path. write_trace raising_world path = None)
   \<and> generate raising_world
       \<lparr>ids = sample_ids, style = ''nature'', sortAlphabetically = False\<rparr>
     = Inr [''CSL Formatting Error for 11: bad style'', ''2. '' @ error_message ''x'',
            ''CSL Formatting Error for 22: bad style'']
   \<and> length (filter (\<lambda>line. line \<noteq> []) (map strip (splitlines sample_ids))) = 3"
proof -
  have tr: "\<forall>path. write_trace raising_world path = None"
    by (simp add: raising_world_def sample_world_def)
  have g: "generate raising_world
       \<lparr>ids = sample_ids, style = ''nature'', sortAlphabetically = False\<rparr>
     = Inr [''CSL Formatting Error for 11: bad style'', ''2. '' @ error_message ''x'',
            ''CSL Formatting Error for 22: bad style'']"
    by code_simp
  from rendering_exception_is_caught [of raising_world "''nature''" "''p''" two_authors
      not_found None
      "\<lparr>ids = sample_ids, style = ''nature'', sortAlphabetically = False\<rparr>"] tr
  have "\<exists>results. generate raising_world
       \<lparr>ids = sample_ids, style = ''nature'', sortAlphabetically = False\<rparr> = Inr results
     \<and> length results
       = length (filter (\<lambda>line. line \<noteq> []) (map strip (splitlines sample_ids)))"
    by (simp del: filter_map)
  then obtain results where r: "generate raising_world
       \<lparr>ids = sample_ids, style = ''nature'', sortAlphabetically = False\<rparr> = Inr results"
    and l: "length results
       = length (filter (\<lambda>line. line \<noteq> []) (map strip (splitlines sample_ids)))"
    by blast
  from r g have "results = [''CSL Formatting Error for 11: bad style'',
      ''2. '' @ error_message ''x'', ''CSL Formatting Error for 22: bad style'']" by simp
  then have "length results = 3" by simp
  with l tr g show ?thesis by simp
qed

end
